theory Spec2Isabelle
  imports Main
begin

section \<open>The outline data model (media/main.js, src/models.ts)\<close>

text \<open>
  An item is the plain object \<^verbatim>\<open>{ id, type, title, indent, isChecked, note }\<close> that
  \<^verbatim>\<open>addItem\<close> builds and that the parser's \<^verbatim>\<open>ItemTodo\<close>/\<^verbatim>\<open>ItemHeading\<close> classes
  serialise to. Identifiers are strings drawn from \<^verbatim>\<open>Date.now()\<close> and
  \<^verbatim>\<open>Math.random()\<close>; the code only compares them for equality, so the model draws them
  from a counter (\<open>nextId\<close>). The parser's \<^verbatim>\<open>index\<close> field is written once and never
  read, and is left out.
\<close>

datatype item_type = Todo | Heading

record item =
  itemId :: nat
  itemType :: item_type
  title :: string
  indent :: int
  isChecked :: bool
  itemNote :: string

text \<open>\<^verbatim>\<open>Constants\<close> of main.js.\<close>

definition MAX_HISTORY_SIZE :: nat where
  "MAX_HISTORY_SIZE = 50"

definition INDENT_PARENT :: int where
  "INDENT_PARENT = 0"

definition INDENT_CHILD :: int where
  "INDENT_CHILD = 1"

definition INDENT_MAX :: int where
  "INDENT_MAX = 1"

subsection \<open>JavaScript arrays and sets\<close>

text \<open>
  Array indices are JavaScript numbers and may be \<open>-1\<close>, so they are \<open>int\<close>. Reading
  outside the array gives \<^verbatim>\<open>undefined\<close>: \<open>at\<close> returns \<open>None\<close> there, and each caller
  writes out what the source does with it.
\<close>

definition at :: "'a list \<Rightarrow> int \<Rightarrow> 'a option" where
  "at xs i = (if 0 \<le> i \<and> i < int (length xs) then Some (xs ! nat i) else None)"

text \<open>
  \<^verbatim>\<open>Array.prototype.splice\<close> and \<^verbatim>\<open>slice\<close> clamp their start: a negative start counts
  from the end, a start beyond the end is the end.
\<close>

definition relIndex :: "'a list \<Rightarrow> int \<Rightarrow> nat" where
  "relIndex xs i =
     (if i < 0 then nat (max (int (length xs) + i) 0) else min (nat i) (length xs))"

definition spliceArr :: "'a list \<Rightarrow> int \<Rightarrow> int \<Rightarrow> 'a list \<Rightarrow> 'a list" where
  "spliceArr xs start deleteCount ys =
     (let k = relIndex xs start
      in take k xs @ ys @ drop (k + nat deleteCount) xs)"

definition slice :: "'a list \<Rightarrow> int \<Rightarrow> int \<Rightarrow> 'a list" where
  "slice xs start end =
     (let a = relIndex xs start; b = relIndex xs end
      in take (b - a) (drop a xs))"

fun findIndexFrom :: "('a \<Rightarrow> bool) \<Rightarrow> 'a list \<Rightarrow> int \<Rightarrow> int" where
  "findIndexFrom p [] k = -1"
| "findIndexFrom p (x # xs) k = (if p x then k else findIndexFrom p xs (k + 1))"

definition findIndex :: "('a \<Rightarrow> bool) \<Rightarrow> 'a list \<Rightarrow> int" where
  "findIndex p xs = findIndexFrom p xs 0"

text \<open>
  A \<^verbatim>\<open>Set\<close> of indices keeps its elements in insertion order, without duplicates.
\<close>

definition setAdd :: "int \<Rightarrow> int list \<Rightarrow> int list" where
  "setAdd i xs = (if i \<in> set xs then xs else xs @ [i])"

definition setDelete :: "int \<Rightarrow> int list \<Rightarrow> int list" where
  "setDelete i xs = removeAll i xs"

definition sortAsc :: "int list \<Rightarrow> int list" where
  "sortAsc xs = sort xs"

definition sortDesc :: "int list \<Rightarrow> int list" where
  "sortDesc xs = rev (sort xs)"

subsection \<open>The global state of the webview\<close>

text \<open>
  A history entry is the object \<^verbatim>\<open>{ items, archivedItems }\<close>, a deep copy made with
  \<^verbatim>\<open>JSON.parse(JSON.stringify(...))\<close>. Items hold only strings, integers and booleans,
  so the copy equals the original, and values of the model are never shared.
\<close>

record snapshot =
  snapItems :: "item list"
  snapArchivedItems :: "item list"

text \<open>
  The module-level variables of main.js. \<open>nextId\<close> is the supply of fresh identifiers
  and \<open>notifications\<close> records the messages passed to \<^verbatim>\<open>showNotification\<close>, oldest
  first. Variables that only drive the DOM (\<^verbatim>\<open>ignoreBlur\<close>, \<^verbatim>\<open>isPreSelected\<close>,
  \<^verbatim>\<open>isEditingNote\<close>, the settings) are not part of the model.
\<close>

record state =
  items :: "item list"
  archivedItems :: "item list"
  archivedSelectedIndices :: "int list"
  archivedActiveIndex :: int
  archivedAnchorIndex :: int
  history :: "snapshot list"
  future :: "snapshot list"
  activeIndex :: int
  anchorIndex :: int
  selectedIndices :: "int list"
  editingId :: "nat option"
  isNewItem :: bool
  isUndoingRedoing :: bool
  isArchiveHidden :: bool
  clipboard :: "item list"
  isArchiveActive :: bool
  isArchiveHeaderSelected :: bool
  nextId :: nat
  notifications :: "string list"

definition initialState :: state where
  "initialState =
     \<lparr> items = [], archivedItems = [], archivedSelectedIndices = [],
       archivedActiveIndex = -1, archivedAnchorIndex = -1, history = [], future = [],
       activeIndex = -1, anchorIndex = -1, selectedIndices = [], editingId = None,
       isNewItem = False, isUndoingRedoing = False, isArchiveHidden = True,
       clipboard = [], isArchiveActive = False, isArchiveHeaderSelected = False,
       nextId = 0, notifications = [] \<rparr>"

definition showNotification :: "string \<Rightarrow> state \<Rightarrow> state" where
  "showNotification message s = s\<lparr>notifications := notifications s @ [message]\<rparr>"

section \<open>HistoryManager\<close>

definition current :: "state \<Rightarrow> snapshot" where
  "current s = \<lparr> snapItems = items s, snapArchivedItems = archivedItems s \<rparr>"

definition save :: "state \<Rightarrow> state" where
  "save s =
     (if isUndoingRedoing s then s
      else
        let h = history s @ [current s];
            h' = (if length h > MAX_HISTORY_SIZE then tl h else h)
        in s\<lparr>history := h', future := []\<rparr>)"

definition popLast :: "state \<Rightarrow> state" where
  "popLast s = (if length (history s) > 0 then s\<lparr>history := butlast (history s)\<rparr> else s)"

definition minOfSet :: "int list \<Rightarrow> int" where
  "minOfSet xs = fold min (tl xs) (hd xs)"

definition validateSelection :: "state \<Rightarrow> state" where
  "validateSelection s =
     (let n = int (length (items s));
          a = (if activeIndex s \<ge> n then (if n > 0 then n - 1 else -1) else activeIndex s);
          s1 = s\<lparr>activeIndex := a, selectedIndices := []\<rparr>;
          s2 = (if a \<ge> 0 then s1\<lparr>selectedIndices := [a], anchorIndex := a\<rparr> else s1);
          m = int (length (archivedItems s));
          aa = (if archivedActiveIndex s \<ge> m then (if m > 0 then m - 1 else -1)
                else archivedActiveIndex s);
          valid = filter (\<lambda>idx. idx < m) (archivedSelectedIndices s);
          s3 = s2\<lparr>archivedActiveIndex := aa, archivedSelectedIndices := valid\<rparr>
      in if aa \<ge> 0 then s3\<lparr>archivedAnchorIndex := aa\<rparr>
         else if valid \<noteq> [] then
           s3\<lparr>archivedActiveIndex := minOfSet valid, archivedAnchorIndex := minOfSet valid\<rparr>
         else s3\<lparr>archivedAnchorIndex := -1\<rparr>)"

text \<open>
  \<^verbatim>\<open>HistoryManager.undo\<close> and \<^verbatim>\<open>redo\<close> return whether they did anything; the flag
  \<^verbatim>\<open>isUndoingRedoing\<close> is raised for the duration and lowered in the \<^verbatim>\<open>finally\<close>.
\<close>

definition HistoryManager_undo :: "state \<Rightarrow> state \<times> bool" where
  "HistoryManager_undo s =
     (if isUndoingRedoing s \<or> length (history s) = 0 then (s, False)
      else
        let s1 = s\<lparr>isUndoingRedoing := True\<rparr>;
            s2 = s1\<lparr>future := future s1 @ [current s1]\<rparr>;
            previousState = last (history s2);
            s3 = s2\<lparr>history := butlast (history s2)\<rparr>;
            s4 = s3\<lparr>items := snapItems previousState,
                    archivedItems := snapArchivedItems previousState\<rparr>;
            s5 = validateSelection s4
        in (s5\<lparr>isUndoingRedoing := False\<rparr>, True))"

definition HistoryManager_redo :: "state \<Rightarrow> state \<times> bool" where
  "HistoryManager_redo s =
     (if isUndoingRedoing s \<or> length (future s) = 0 then (s, False)
      else
        let s1 = s\<lparr>isUndoingRedoing := True\<rparr>;
            s2 = s1\<lparr>history := history s1 @ [current s1]\<rparr>;
            nextState = last (future s2);
            s3 = s2\<lparr>future := butlast (future s2)\<rparr>;
            s4 = s3\<lparr>items := snapItems nextState,
                    archivedItems := snapArchivedItems nextState\<rparr>;
            s5 = validateSelection s4
        in (s5\<lparr>isUndoingRedoing := False\<rparr>, True))"

definition saveState :: "state \<Rightarrow> state" where
  "saveState s = save s"

definition undo :: "state \<Rightarrow> state" where
  "undo s = (case HistoryManager_undo s of
               (s', True) \<Rightarrow> showNotification ''Undo'' s'
             | (s', False) \<Rightarrow> s')"

definition redo :: "state \<Rightarrow> state" where
  "redo s = (case HistoryManager_redo s of
               (s', True) \<Rightarrow> showNotification ''Redo'' s'
             | (s', False) \<Rightarrow> s')"

section \<open>ItemUtils\<close>

definition isArchive :: "item \<Rightarrow> bool" where
  "isArchive i = (itemType i = Heading \<and> title i = ''Archive'')"

definition findArchiveIndex :: "item list \<Rightarrow> int" where
  "findArchiveIndex itemList = findIndex isArchive itemList"

text \<open>\<^verbatim>\<open>isArchiveHeading(item)\<close> starts with \<^verbatim>\<open>item &&\<close>: \<^verbatim>\<open>undefined\<close> is not one.\<close>

definition isArchiveHeading :: "item option \<Rightarrow> bool" where
  "isArchiveHeading item = (case item of None \<Rightarrow> False | Some i \<Rightarrow> isArchive i)"

text \<open>
  The loops of \<^verbatim>\<open>getChildCount\<close>, \<^verbatim>\<open>getItemWithChildren\<close> and
  \<^verbatim>\<open>MoveUtils.getBlockCount\<close> count the items after a position up to the first one that
  satisfies the \<^verbatim>\<open>break\<close> condition.
\<close>

definition countUntil :: "(item \<Rightarrow> bool) \<Rightarrow> item list \<Rightarrow> int \<Rightarrow> int" where
  "countUntil stop itemList from =
     int (length (takeWhile (\<lambda>i. \<not> stop i) (drop (nat from) itemList)))"

definition endsChildren :: "item \<Rightarrow> bool" where
  "endsChildren i = (indent i \<le> INDENT_PARENT \<or> itemType i = Heading)"

definition isHeading :: "item \<Rightarrow> bool" where
  "isHeading i = (itemType i = Heading)"

definition getChildCount :: "item list \<Rightarrow> int \<Rightarrow> int" where
  "getChildCount itemList parentIndex =
     (case at itemList parentIndex of
        None \<Rightarrow> 0
      | Some parentItem \<Rightarrow>
          if indent parentItem \<noteq> INDENT_PARENT \<or> itemType parentItem = Heading then 0
          else countUntil endsChildren itemList (parentIndex + 1))"

definition blockCount :: "item list \<Rightarrow> item \<Rightarrow> int \<Rightarrow> int" where
  "blockCount itemList item index =
     (if itemType item = Heading then 1 + countUntil isHeading itemList (index + 1)
      else if indent item = INDENT_PARENT then 1 + countUntil endsChildren itemList (index + 1)
      else 1)"

definition getItemWithChildren :: "item list \<Rightarrow> int \<Rightarrow> item list \<times> int" where
  "getItemWithChildren itemList index =
     (case at itemList index of
        None \<Rightarrow> ([], 0)
      | Some item \<Rightarrow>
          let count = blockCount itemList item index
          in (slice itemList index (index + count), count))"

text \<open>
  \<^verbatim>\<open>isParentSelected\<close> walks up from \<^verbatim>\<open>childIndex - 1\<close>; the argument \<open>Suc i\<close> of
  the loop function stands for the loop variable \<open>i\<close>. The first item with indent 0,
  heading or not, ends the walk.
\<close>

fun isParentSelectedFrom :: "item list \<Rightarrow> nat \<Rightarrow> int list \<Rightarrow> bool" where
  "isParentSelectedFrom itemList 0 selectedSet = False"
| "isParentSelectedFrom itemList (Suc i) selectedSet =
     (if indent (itemList ! i) = INDENT_PARENT then int i \<in> set selectedSet
      else if itemType (itemList ! i) = Heading then False
      else isParentSelectedFrom itemList i selectedSet)"

definition isParentSelected :: "item list \<Rightarrow> int \<Rightarrow> int list \<Rightarrow> bool" where
  "isParentSelected itemList childIndex selectedSet =
     (case at itemList childIndex of
        None \<Rightarrow> False
      | Some item \<Rightarrow>
          if indent item \<noteq> INDENT_CHILD then False
          else isParentSelectedFrom itemList (nat childIndex) selectedSet)"

definition collectItemsToProcess :: "item list \<Rightarrow> int list \<Rightarrow> bool \<Rightarrow> item list" where
  "collectItemsToProcess itemList selectedSet excludeHeadings =
     concat (map (\<lambda>index.
        case at itemList index of
          None \<Rightarrow> []
        | Some item \<Rightarrow>
            if excludeHeadings \<and> itemType item = Heading then []
            else if indent item = INDENT_CHILD \<and> isParentSelected itemList index selectedSet
            then []
            else [item]) (sortAsc selectedSet))"

text \<open>
  \<^verbatim>\<open>deepCopyItems(itemList, true)\<close> gives every copy a fresh identifier; with
  \<^verbatim>\<open>false\<close> the copy equals the original.
\<close>

definition deepCopyNewIds :: "item list \<Rightarrow> nat \<Rightarrow> item list" where
  "deepCopyNewIds itemList fresh =
     map (\<lambda>(item, k). item\<lparr>itemId := k\<rparr>) (zip itemList [fresh ..< fresh + length itemList])"

text \<open>
  \<^verbatim>\<open>hasParentAbove\<close> reads \<^verbatim>\<open>itemList[i].indent\<close> from \<^verbatim>\<open>position - 1\<close> down; a
  position beyond the end of the list makes that a TypeError, which is \<open>None\<close>.
\<close>

fun hasParentAboveFrom :: "item list \<Rightarrow> nat \<Rightarrow> bool option" where
  "hasParentAboveFrom itemList 0 = Some False"
| "hasParentAboveFrom itemList (Suc i) =
     (case at itemList (int i) of
        None \<Rightarrow> None
      | Some item \<Rightarrow>
          if indent item = INDENT_PARENT \<and> itemType item \<noteq> Heading then Some True
          else if itemType item = Heading then Some False
          else hasParentAboveFrom itemList i)"

definition hasParentAbove :: "item list \<Rightarrow> int \<Rightarrow> bool option" where
  "hasParentAbove itemList position = hasParentAboveFrom itemList (nat position)"

definition adjustOrphanedIndent :: "item list \<Rightarrow> item list \<Rightarrow> int \<Rightarrow> item list option" where
  "adjustOrphanedIndent itemsToInsert targetList insertPosition =
     (case itemsToInsert of
        [] \<Rightarrow> Some []
      | first # rest \<Rightarrow>
          if indent first \<noteq> INDENT_CHILD then Some itemsToInsert
          else if insertPosition = 0 then Some (first\<lparr>indent := INDENT_PARENT\<rparr> # rest)
          else
            (case hasParentAbove targetList insertPosition of
               None \<Rightarrow> None
             | Some False \<Rightarrow> Some (first\<lparr>indent := INDENT_PARENT\<rparr> # rest)
             | Some True \<Rightarrow> Some itemsToInsert))"

section \<open>SelectionManager and selectItem\<close>

record captured =
  selectedIds :: "nat list"
  activeItemId :: "nat option"

definition captureState :: "item list \<Rightarrow> state \<Rightarrow> captured" where
  "captureState itemList s =
     \<lparr> selectedIds =
         remdups (concat (map (\<lambda>index. case at itemList index of
                                          None \<Rightarrow> [] | Some item \<Rightarrow> [itemId item])
                              (selectedIndices s))),
       activeItemId =
         (if activeIndex s \<ge> 0 then map_option itemId (at itemList (activeIndex s))
          else None) \<rparr>"

definition indicesWithIds :: "item list \<Rightarrow> nat list \<Rightarrow> int list" where
  "indicesWithIds itemList ids =
     map (\<lambda>k. int k) (filter (\<lambda>k. itemId (itemList ! k) \<in> set ids) [0 ..< length itemList])"

definition restoreState :: "item list \<Rightarrow> captured \<Rightarrow> state \<Rightarrow> state" where
  "restoreState itemList c s =
     (let s1 = s\<lparr>selectedIndices := indicesWithIds itemList (selectedIds c)\<rparr>
      in case activeItemId c of
           None \<Rightarrow> s1
         | Some aid \<Rightarrow>
             let newActiveIndex = findIndex (\<lambda>i. itemId i = aid) itemList
             in if newActiveIndex \<noteq> -1 then s1\<lparr>activeIndex := newActiveIndex\<rparr> else s1)"

definition clear :: "state \<Rightarrow> state" where
  "clear s = s\<lparr>selectedIndices := [], activeIndex := -1, anchorIndex := -1\<rparr>"

definition setSingle :: "int \<Rightarrow> state \<Rightarrow> state" where
  "setSingle index s =
     s\<lparr>selectedIndices := (if index \<ge> 0 then [index] else []),
       activeIndex := index, anchorIndex := index\<rparr>"

definition validate :: "item list \<Rightarrow> state \<Rightarrow> state" where
  "validate itemList s =
     (if activeIndex s \<ge> int (length itemList)
      then s\<lparr>activeIndex := -1, selectedIndices := [], anchorIndex := -1\<rparr>
      else s)"

text \<open>
  \<^verbatim>\<open>selectItem(index)\<close> as the operations call it, with \<^verbatim>\<open>toggle\<close> and \<^verbatim>\<open>extend\<close>
  false.
\<close>

definition selectItem :: "int \<Rightarrow> state \<Rightarrow> state" where
  "selectItem index s =
     (if index < 0 \<or> index \<ge> int (length (items s)) then clear s else setSingle index s)"

section \<open>MoveUtils\<close>

text \<open>
  Where the source reads a field of \<^verbatim>\<open>undefined\<close> it throws a TypeError. Inside a
  helper that is \<open>None\<close>; the event handler that called it stops there, and the globals
  keep the values they had, which is the state the handler's model returns.
\<close>

definition indicesAfter :: "int \<Rightarrow> int \<Rightarrow> int list" where
  "indicesAfter idx n = map (\<lambda>k. idx + 1 + int k) [0 ..< nat n]"

definition notChild :: "item \<Rightarrow> bool" where
  "notChild i = (indent i \<noteq> INDENT_CHILD)"

fun expandLoop :: "item list \<Rightarrow> int list \<Rightarrow> int list \<Rightarrow> int list option" where
  "expandLoop itemList [] expandedIndices = Some expandedIndices"
| "expandLoop itemList (idx # rest) expandedIndices =
     (case at itemList idx of
        None \<Rightarrow> None
      | Some item \<Rightarrow>
          if indent item = INDENT_PARENT \<and> itemType item \<noteq> Heading
          then expandLoop itemList rest
                 (fold setAdd (indicesAfter idx (countUntil notChild itemList (idx + 1)))
                    expandedIndices)
          else expandLoop itemList rest expandedIndices)"

definition expandSelectionWithChildren :: "int list \<Rightarrow> item list \<Rightarrow> int list option" where
  "expandSelectionWithChildren indices itemList =
     map_option sortAsc (expandLoop itemList indices (remdups indices))"

fun isContiguous :: "int list \<Rightarrow> bool" where
  "isContiguous (a # b # rest) = (if b \<noteq> a + 1 then False else isContiguous (b # rest))"
| "isContiguous indices = True"

definition getBlockCount :: "item list \<Rightarrow> int \<Rightarrow> int option" where
  "getBlockCount itemList startIndex =
     (case at itemList startIndex of
        None \<Rightarrow> None
      | Some item \<Rightarrow> Some (blockCount itemList item startIndex))"

definition updateSelectionByIds :: "item list \<Rightarrow> nat list \<Rightarrow> state \<Rightarrow> state" where
  "updateSelectionByIds itemList movingIds s =
     s\<lparr>selectedIndices := indicesWithIds itemList movingIds\<rparr>"

fun movedIntoArchiveLoop :: "item list \<Rightarrow> nat list \<Rightarrow> bool \<Rightarrow> bool" where
  "movedIntoArchiveLoop [] movingIds inArchive = False"
| "movedIntoArchiveLoop (item # rest) movingIds inArchive =
     (if itemType item = Heading \<and> title item = ''Archive''
      then movedIntoArchiveLoop rest movingIds True
      else if inArchive \<and> itemId item \<in> set movingIds then True
      else movedIntoArchiveLoop rest movingIds inArchive)"

definition checkMovedIntoArchive :: "item list \<Rightarrow> nat list \<Rightarrow> bool \<Rightarrow> bool" where
  "checkMovedIntoArchive itemList movingIds archiveHidden =
     (if \<not> archiveHidden then False else movedIntoArchiveLoop itemList movingIds False)"

section \<open>IndentManager\<close>

text \<open>
  \<^verbatim>\<open>canChangeIndent\<close> reads the global \<^verbatim>\<open>items[index - 1].type\<close>; the list is passed
  as the first argument.
\<close>

definition canChangeIndent :: "item list \<Rightarrow> item \<Rightarrow> int \<Rightarrow> int \<Rightarrow> int \<Rightarrow> bool option" where
  "canChangeIndent its item index delta newIndent =
     (if itemType item = Heading then Some False
      else if newIndent < INDENT_PARENT \<or> newIndent > INDENT_MAX then Some False
      else if delta > 0 then
        (if index = 0 then Some False
         else case at its (index - 1) of
                None \<Rightarrow> None
              | Some prev \<Rightarrow> if itemType prev = Heading then Some False else Some True)
      else Some True)"

fun changeIndentLoop :: "int \<Rightarrow> int list \<Rightarrow> item list \<Rightarrow> item list" where
  "changeIndentLoop delta [] its = its"
| "changeIndentLoop delta (index # rest) its =
     (case at its index of
        None \<Rightarrow> its
      | Some item \<Rightarrow>
          let newIndent = indent item + delta
          in (case canChangeIndent its item index delta newIndent of
                None \<Rightarrow> its
              | Some True \<Rightarrow>
                  changeIndentLoop delta rest (its[nat index := item\<lparr>indent := newIndent\<rparr>])
              | Some False \<Rightarrow> changeIndentLoop delta rest its))"

definition changeIndent :: "int \<Rightarrow> state \<Rightarrow> state" where
  "changeIndent delta s =
     s\<lparr>items := changeIndentLoop delta (sortAsc (selectedIndices s)) (items s)\<rparr>"

section \<open>DeleteManager\<close>

datatype deleted_type = Parent | Child

definition deletedTypeOf :: "item \<Rightarrow> deleted_type" where
  "deletedTypeOf item = (if indent item = INDENT_PARENT then Parent else Child)"

definition endsFamily :: "item \<Rightarrow> bool" where
  "endsFamily i = (indent i = INDENT_PARENT \<or> itemType i = Heading)"

fun collectLoop :: "item list \<Rightarrow> int list \<Rightarrow> int list \<Rightarrow> int list option" where
  "collectLoop its [] indicesToDelete = Some indicesToDelete"
| "collectLoop its (index # rest) indicesToDelete =
     (if index \<in> set indicesToDelete then collectLoop its rest indicesToDelete
      else case at its index of
             None \<Rightarrow> None
           | Some item \<Rightarrow>
               if indent item = INDENT_PARENT \<and> itemType item \<noteq> Heading
               then collectLoop its rest
                      (fold setAdd (indicesAfter index (countUntil endsFamily its (index + 1)))
                         (setAdd index indicesToDelete))
               else collectLoop its rest (setAdd index indicesToDelete))"

definition collectIndicesToDelete :: "item list \<Rightarrow> int list \<Rightarrow> int list option" where
  "collectIndicesToDelete its indices = collectLoop its (sortAsc indices) []"

text \<open>
  \<^verbatim>\<open>deleteByIndices\<close> first records the type of every item to delete, largest index
  first and each put in front of the others, then removes them in that order.
\<close>

definition deleteByIndices ::
  "item list \<Rightarrow> int list \<Rightarrow> (item list \<times> int list \<times> deleted_type list) option" where
  "deleteByIndices its indicesToDelete =
     (let sortedDeleteIndices = sortDesc indicesToDelete
      in if list_ex (\<lambda>index. at its index = None) sortedDeleteIndices then None
         else Some (fold (\<lambda>index l. spliceArr l index 1 []) sortedDeleteIndices its,
                    sortedDeleteIndices,
                    map (\<lambda>index. deletedTypeOf (its ! nat index)) (rev sortedDeleteIndices)))"

function adjustCursorAfterDeletion :: "item list \<Rightarrow> int \<Rightarrow> deleted_type list \<Rightarrow> int" where
  "adjustCursorAfterDeletion its referenceIndex deletedTypes =
     (let a0 = min referenceIndex (int (length its) - 1);
          adjustedIndex = (if a0 < 0 \<and> length its > 0 then 0 else a0)
      in case at its adjustedIndex of
           None \<Rightarrow> adjustedIndex
         | Some item \<Rightarrow>
             let deletedParent = list_ex (\<lambda>t. t = Parent) deletedTypes;
                 deletedChild = list_ex (\<lambda>t. t = Child) deletedTypes
             in if deletedParent \<and> \<not> deletedChild \<and> itemType item = Heading
                then (if adjustedIndex > 0 then adjustedIndex - 1 else adjustedIndex)
                else if deletedChild \<and> \<not> deletedParent
                        \<and> (itemType item = Heading \<or> indent item = INDENT_PARENT)
                then adjustCursorAfterDeletion its (adjustedIndex - 1) []
                else adjustedIndex)"
  by pat_completeness auto
termination
  by (relation "measure (\<lambda>(its, referenceIndex, deletedTypes). length deletedTypes)")
     (auto simp: list_ex_iff)

definition resetSelectionAfterDelete :: "int \<Rightarrow> deleted_type list \<Rightarrow> state \<Rightarrow> state" where
  "resetSelectionAfterDelete referenceIndex deletedTypes s =
     (let a = adjustCursorAfterDeletion (items s) referenceIndex deletedTypes
      in if a \<ge> 0 then s\<lparr>selectedIndices := [a], activeIndex := a, anchorIndex := a\<rparr>
         else s\<lparr>selectedIndices := [], activeIndex := a, anchorIndex := -1\<rparr>)"

text \<open>
  The \<^verbatim>\<open>notify\<close> argument only decides whether \<^verbatim>\<open>render\<close> posts the lists to the
  extension host; it does not show a notification.
\<close>

definition deleteSingle :: "int \<Rightarrow> bool \<Rightarrow> state \<Rightarrow> state" where
  "deleteSingle index notify s =
     (case at (items s) index of
        None \<Rightarrow> s
      | Some item \<Rightarrow>
          let deletedType = deletedTypeOf item;
              s1 = s\<lparr>items := spliceArr (items s) index 1 []\<rparr>;
              s2 = resetSelectionAfterDelete index [deletedType] s1
          in selectItem (activeIndex s2) s2)"

definition deleteMultiple :: "bool \<Rightarrow> state \<Rightarrow> state" where
  "deleteMultiple notify s =
     (if length (selectedIndices s) = 0 then s
      else case collectIndicesToDelete (items s) (selectedIndices s) of
             None \<Rightarrow> s
           | Some indicesToDelete \<Rightarrow>
               (case deleteByIndices (items s) indicesToDelete of
                  None \<Rightarrow> s
                | Some (its, sortedDeleteIndices, deletedTypes) \<Rightarrow>
                    let minDeletedIndex = last sortedDeleteIndices;
                        s1 = s\<lparr>items := its\<rparr>;
                        s2 = resetSelectionAfterDelete minDeletedIndex deletedTypes s1
                    in selectItem (activeIndex s2) s2))"

definition deleteItem :: "int \<Rightarrow> bool \<Rightarrow> state \<Rightarrow> state" where
  "deleteItem index notify s = deleteSingle index notify s"

definition deleteItems :: "bool \<Rightarrow> state \<Rightarrow> state" where
  "deleteItems notify s = deleteMultiple notify s"

section \<open>ArchiveDeleteManager\<close>

definition isParentIndent :: "item \<Rightarrow> bool" where
  "isParentIndent i = (indent i = INDENT_PARENT)"

fun archiveCollectLoop :: "item list \<Rightarrow> int list \<Rightarrow> int list \<Rightarrow> int list option" where
  "archiveCollectLoop arch [] indicesToDelete = Some indicesToDelete"
| "archiveCollectLoop arch (index # rest) indicesToDelete =
     (if index \<in> set indicesToDelete then archiveCollectLoop arch rest indicesToDelete
      else case at arch index of
             None \<Rightarrow> None
           | Some item \<Rightarrow>
               if indent item = INDENT_PARENT
               then archiveCollectLoop arch rest
                      (fold setAdd
                         (indicesAfter index (countUntil isParentIndent arch (index + 1)))
                         (setAdd index indicesToDelete))
               else archiveCollectLoop arch rest (setAdd index indicesToDelete))"

definition archiveCollectIndicesToDelete :: "item list \<Rightarrow> int list \<Rightarrow> int list option" where
  "archiveCollectIndicesToDelete arch indices = archiveCollectLoop arch (sortAsc indices) []"

definition archiveDeleteByIndices :: "item list \<Rightarrow> int list \<Rightarrow> item list \<times> int" where
  "archiveDeleteByIndices arch indicesToDelete =
     (let sortedDeleteIndices = sortDesc indicesToDelete
      in (fold (\<lambda>index l. spliceArr l index 1 []) sortedDeleteIndices arch,
          last sortedDeleteIndices))"

definition archiveResetSelectionAfterDelete :: "int \<Rightarrow> state \<Rightarrow> state" where
  "archiveResetSelectionAfterDelete minDeletedIndex s =
     (if length (archivedItems s) > 0
      then let newActiveIndex = min minDeletedIndex (int (length (archivedItems s)) - 1)
           in s\<lparr>archivedSelectedIndices := [newActiveIndex],
                archivedActiveIndex := newActiveIndex,
                archivedAnchorIndex := newActiveIndex\<rparr>
      else s\<lparr>archivedSelectedIndices := [], archivedActiveIndex := -1,
             archivedAnchorIndex := -1, isArchiveHeaderSelected := True,
             isArchiveActive := False\<rparr>)"

text \<open>Decimal digits of a number, for the template strings of the notifications.\<close>

fun showNat :: "nat \<Rightarrow> string" where
  "showNat n =
     (if n < 10 then [char_of (48 + n)]
      else showNat (n div 10) @ [char_of (48 + n mod 10)])"

definition deleteArchivedItems :: "state \<Rightarrow> state" where
  "deleteArchivedItems s =
     (if length (archivedSelectedIndices s) = 0 then s
      else case archiveCollectIndicesToDelete (archivedItems s) (archivedSelectedIndices s) of
             None \<Rightarrow> s
           | Some indicesToDelete \<Rightarrow>
               let (arch, minDeletedIndex) =
                     archiveDeleteByIndices (archivedItems s) indicesToDelete;
                   s1 = archiveResetSelectionAfterDelete minDeletedIndex
                          (s\<lparr>archivedItems := arch\<rparr>)
               in showNotification (showNat (length indicesToDelete) @ '' item(s) deleted'') s1)"

section \<open>Adding and editing items\<close>

text \<open>
  The loop of \<^verbatim>\<open>addItem\<close> that looks for the parent above an active child; \<open>Suc i\<close>
  stands for the loop variable \<open>i\<close>, and the result when nothing is found is index 0.
\<close>

fun insertBeforeParentFrom :: "item list \<Rightarrow> nat \<Rightarrow> int" where
  "insertBeforeParentFrom its 0 = 0"
| "insertBeforeParentFrom its (Suc i) =
     (if indent (its ! i) = 0 then int i
      else if itemType (its ! i) = Heading then int i
      else insertBeforeParentFrom its i)"

definition startEditing :: "nat \<Rightarrow> bool \<Rightarrow> state \<Rightarrow> state" where
  "startEditing ident isNew s = s\<lparr>editingId := Some ident, isNewItem := isNew\<rparr>"

definition smartIndent :: "state \<Rightarrow> int" where
  "smartIndent s =
     (if activeIndex s \<ge> 0 then
        (case at (items s) (activeIndex s) of
           None \<Rightarrow> 0
         | Some selectedItem \<Rightarrow>
             if indent selectedItem = 0 then
               (case at (items s) (activeIndex s + 1) of
                  None \<Rightarrow> 0
                | Some next \<Rightarrow> if indent next = 1 then 1 else 0)
             else indent selectedItem)
      else 0)"

text \<open>
  \<^verbatim>\<open>addItem\<close> in its three parts: the insert position (\<open>None\<close> is the TypeError of
  reading the indent of an active item that does not exist), the indent of the new
  item with its bounds, and the insertion.
\<close>

definition addInsertIndex :: "item_type \<Rightarrow> int option \<Rightarrow> state \<Rightarrow> int option" where
  "addInsertIndex type insertIndex0 s =
     (case insertIndex0 of
        Some k \<Rightarrow> Some k
      | None \<Rightarrow>
          if activeIndex s \<ge> 0 then
            (if type = Heading then
               (case at (items s) (activeIndex s) of
                  None \<Rightarrow> None
                | Some a \<Rightarrow>
                    if indent a = 1
                    then Some (insertBeforeParentFrom (items s) (nat (activeIndex s)))
                    else Some (activeIndex s))
             else Some (activeIndex s + 1))
          else Some (int (length (items s))))"

definition addIndent :: "item_type \<Rightarrow> int option \<Rightarrow> state \<Rightarrow> int" where
  "addIndent type indent0 s =
     (let i1 = (case indent0 of
                  None \<Rightarrow> if type = Heading then 0 else smartIndent s
                | Some k \<Rightarrow> k)
      in if type = Heading then 0 else if i1 > 1 then 1 else i1)"

definition addItem :: "item_type \<Rightarrow> int option \<Rightarrow> int option \<Rightarrow> state \<Rightarrow> state" where
  "addItem type insertIndex0 indent0 s0 =
     (let s = saveState s0
      in case addInsertIndex type insertIndex0 s of
           None \<Rightarrow> s
         | Some insertIndex \<Rightarrow>
             let archiveIndex = findIndex isArchive (items s)
             in if type = Heading \<and> archiveIndex \<noteq> -1 \<and> insertIndex > archiveIndex then s
                else
                  let newItem = \<lparr> itemId = nextId s, itemType = type, title = [],
                                  indent = addIndent type indent0 s, isChecked = False,
                                  itemNote = [] \<rparr>;
                      s1 = s\<lparr>items := spliceArr (items s) insertIndex 0 [newItem],
                             nextId := Suc (nextId s)\<rparr>
                  in startEditing (itemId newItem) True (selectItem insertIndex s1))"

text \<open>
  \<^verbatim>\<open>String.prototype.trim\<close> on the code units below 256: tab, line feed, vertical tab,
  form feed, carriage return, space and no-break space.
\<close>

definition isWhiteSpace :: "char \<Rightarrow> bool" where
  "isWhiteSpace c =
     (c \<in> set [CHR 0x09, CHR 0x0A, CHR 0x0B, CHR 0x0C, CHR 0x0D, CHR 0x20, CHR 0xA0])"

definition trim :: "string \<Rightarrow> string" where
  "trim str = rev (dropWhile isWhiteSpace (rev (dropWhile isWhiteSpace str)))"

definition resetEditingState :: "state \<Rightarrow> state" where
  "resetEditingState s = s\<lparr>editingId := None, isNewItem := False\<rparr>"

definition cancelNewItem :: "int \<Rightarrow> state \<Rightarrow> state" where
  "cancelNewItem itemIndex s = resetEditingState (popLast (deleteItem itemIndex False s))"

definition saveTitle :: "int \<Rightarrow> string \<Rightarrow> state \<Rightarrow> state" where
  "saveTitle itemIndex newTitle s =
     (case at (items s) itemIndex of
        None \<Rightarrow> s
      | Some item \<Rightarrow>
          if title item \<noteq> newTitle
          then let s1 = (if \<not> isNewItem s then save s else s)
               in resetEditingState
                    (s1\<lparr>items := (items s1)[nat itemIndex := item\<lparr>title := newTitle\<rparr>]\<rparr>)
          else resetEditingState s)"

definition saveEdit :: "int \<Rightarrow> string \<Rightarrow> state \<Rightarrow> state" where
  "saveEdit itemIndex newTitle s =
     (if newTitle = [] \<and> isNewItem s then cancelNewItem itemIndex s
      else if newTitle = [] then resetEditingState (deleteItem itemIndex True (save s))
      else saveTitle itemIndex newTitle s)"

definition cancelEdit :: "int \<Rightarrow> state \<Rightarrow> state" where
  "cancelEdit itemIndex s =
     (if isNewItem s then cancelNewItem itemIndex s else resetEditingState s)"

text \<open>
  \<^verbatim>\<open>stopEditing(save)\<close> reads the text of the edit field from the DOM; it is the
  argument \<open>inputValue\<close>, \<open>None\<close> when the field does not exist.
\<close>

definition stopEditing :: "bool \<Rightarrow> string option \<Rightarrow> state \<Rightarrow> state" where
  "stopEditing saveIt inputValue s =
     (if isUndoingRedoing s then s
      else case editingId s of
             None \<Rightarrow> s
           | Some eid \<Rightarrow>
               let itemIndex = findIndex (\<lambda>i. itemId i = eid) (items s)
               in if itemIndex = -1 then s\<lparr>editingId := None\<rparr>
                  else
                    let newTitle = (case inputValue of Some v \<Rightarrow> trim v | None \<Rightarrow> [])
                    in if saveIt then saveEdit itemIndex newTitle s
                       else cancelEdit itemIndex s)"

text \<open>
  The handlers of the edit field (\<^verbatim>\<open>render\<close>). Enter writes the text into the item and
  then stops editing.
\<close>

definition setEditedTitle :: "string \<Rightarrow> state \<Rightarrow> state" where
  "setEditedTitle v s =
     (case editingId s of
        None \<Rightarrow> s
      | Some eid \<Rightarrow>
          s\<lparr>items := map (\<lambda>i. if itemId i = eid then i\<lparr>title := v\<rparr> else i) (items s)\<rparr>)"

definition editOnEnter :: "string \<Rightarrow> state \<Rightarrow> state" where
  "editOnEnter v s = stopEditing True (Some v) (setEditedTitle v s)"

definition editOnEscape :: "string \<Rightarrow> state \<Rightarrow> state" where
  "editOnEscape v s = stopEditing False (Some v) s"

definition editOnBlur :: "string \<Rightarrow> state \<Rightarrow> state" where
  "editOnBlur v s = stopEditing True (Some v) s"

section \<open>Moving items up and down\<close>

datatype direction = Up | Down

text \<open>
  The upward scans of the move functions. \<open>Suc i\<close> stands for the loop variable \<open>i\<close>;
  the last argument is the value the source's variable keeps when the loop finds nothing.
\<close>

fun blockStartFrom :: "item list \<Rightarrow> nat \<Rightarrow> int \<Rightarrow> int" where
  "blockStartFrom its 0 swapStart = swapStart"
| "blockStartFrom its (Suc i) swapStart =
     (if indent (its ! i) = INDENT_PARENT \<or> itemType (its ! i) = Heading then int i
      else blockStartFrom its i swapStart)"

fun siblingIndexFrom :: "item list \<Rightarrow> item \<Rightarrow> nat \<Rightarrow> int" where
  "siblingIndexFrom its item 0 = -1"
| "siblingIndexFrom its item (Suc i) =
     (if itemType item = Heading
      then (if itemType (its ! i) = Heading then int i else siblingIndexFrom its item i)
      else (if indent (its ! i) = INDENT_PARENT then int i else siblingIndexFrom its item i))"

text \<open>
  \<^verbatim>\<open>moveSingleDown\<close> looks at the nearest heading above the new position; when it is
  the Archive heading and the archive is hidden it calls \<^verbatim>\<open>selectArchiveHeading\<close>,
  a function main.js does not define, so the handler stops there with a
  ReferenceError and the selection is left as it was.
\<close>

fun inHiddenArchiveFrom :: "item list \<Rightarrow> bool \<Rightarrow> nat \<Rightarrow> bool" where
  "inHiddenArchiveFrom its archiveHidden 0 = False"
| "inHiddenArchiveFrom its archiveHidden (Suc i) =
     (if itemType (its ! i) = Heading
      then title (its ! i) = ''Archive'' \<and> archiveHidden
      else inHiddenArchiveFrom its archiveHidden i)"

definition moveBlock :: "item list \<Rightarrow> int \<Rightarrow> int \<Rightarrow> int \<Rightarrow> item list \<Rightarrow> item list" where
  "moveBlock its from count to movingItems = spliceArr (spliceArr its from count []) to 0 movingItems"

definition moveMultipleUp :: "int \<Rightarrow> int \<Rightarrow> item list \<Rightarrow> nat list \<Rightarrow> state \<Rightarrow> state" where
  "moveMultipleUp start count movingItems movingIds s =
     (if start = 0 then s
      else
        let targetIndex = start - 1
        in case (at (items s) start, at (items s) targetIndex) of
             (Some first, Some targetItem) \<Rightarrow>
               if indent first \<noteq> INDENT_PARENT \<and> indent targetItem \<noteq> INDENT_CHILD then s
               else
                 let swapStart =
                       (if indent first = INDENT_PARENT \<and> indent targetItem = INDENT_CHILD
                        then blockStartFrom (items s) (nat targetIndex + 1) targetIndex
                        else targetIndex);
                     swapCount = start - swapStart;
                     its = moveBlock (items s) start count swapStart movingItems;
                     s1 = updateSelectionByIds its movingIds (s\<lparr>items := its\<rparr>)
                 in s1\<lparr>activeIndex := activeIndex s1 - swapCount\<rparr>
           | _ \<Rightarrow> s)"

definition moveMultipleDown :: "int \<Rightarrow> int \<Rightarrow> item list \<Rightarrow> nat list \<Rightarrow> state \<Rightarrow> state" where
  "moveMultipleDown start count movingItems movingIds s =
     (if start + count \<ge> int (length (items s)) then s
      else if list_ex isArchive (drop (nat (start + count)) (items s)) then s
      else
        case (at (items s) start, at (items s) (start + count)) of
          (Some first, Some nextItem) \<Rightarrow>
            if indent first \<noteq> INDENT_PARENT \<and> indent nextItem \<noteq> INDENT_CHILD then s
            else
              let swapCount =
                    (if indent first = INDENT_PARENT
                     then 1 + countUntil endsFamily (items s) (start + count + 1)
                     else 1);
                  its = moveBlock (items s) start count (start + swapCount) movingItems;
                  s1 = updateSelectionByIds its movingIds (s\<lparr>items := its\<rparr>)
              in s1\<lparr>activeIndex := activeIndex s1 + swapCount\<rparr>
        | _ \<Rightarrow> s)"

definition moveMultipleItems :: "direction \<Rightarrow> state \<Rightarrow> state" where
  "moveMultipleItems dir s =
     (let indices = sortAsc (selectedIndices s)
      in case expandSelectionWithChildren indices (items s) of
           None \<Rightarrow> s
         | Some finalIndices \<Rightarrow>
             (case at (items s) (hd finalIndices) of
                None \<Rightarrow> s
              | Some topItem \<Rightarrow>
                  if indent topItem = INDENT_CHILD
                     \<and> list_ex (\<lambda>idx. map_option indent (at (items s) idx) = Some INDENT_PARENT)
                          finalIndices
                  then s
                  else if \<not> isContiguous finalIndices then s
                  else
                    let start = hd finalIndices;
                        count = int (length finalIndices);
                        movingItems = slice (items s) start (start + count);
                        movingIds = map itemId movingItems
                    in if dir = Up then moveMultipleUp start count movingItems movingIds s
                       else moveMultipleDown start count movingItems movingIds s))"

definition moveSingleUp :: "item \<Rightarrow> int \<Rightarrow> int \<Rightarrow> item list \<Rightarrow> state \<Rightarrow> state" where
  "moveSingleUp item originalIndex count movingItems s =
     (if originalIndex = 0 then s
      else
        let targetIndex = originalIndex - 1
        in if indent item = INDENT_CHILD then
             (case at (items s) targetIndex of
                None \<Rightarrow> s
              | Some target \<Rightarrow>
                  if indent target \<noteq> INDENT_CHILD then s
                  else selectItem targetIndex
                         (s\<lparr>items := moveBlock (items s) originalIndex 1 targetIndex [item]\<rparr>))
           else
             let siblingIndex = siblingIndexFrom (items s) item (nat originalIndex)
             in if siblingIndex \<noteq> -1
                then selectItem siblingIndex
                       (s\<lparr>items := moveBlock (items s) originalIndex count siblingIndex
                                      movingItems\<rparr>)
                else s)"

definition moveSingleDown :: "item \<Rightarrow> int \<Rightarrow> int \<Rightarrow> item list \<Rightarrow> state \<Rightarrow> state" where
  "moveSingleDown item originalIndex count movingItems s =
     (let nextIndex = originalIndex + count
      in case at (items s) nextIndex of
           None \<Rightarrow> s
         | Some nextItem \<Rightarrow>
             if isArchive nextItem then s
             else if indent item = INDENT_CHILD then
               (if indent nextItem \<noteq> INDENT_CHILD then s
                else selectItem (originalIndex + 1)
                       (s\<lparr>items := moveBlock (items s) originalIndex 1 (originalIndex + 1)
                                      [item]\<rparr>))
             else
               let nextBlockCount =
                     (if itemType nextItem = Heading \<and> itemType item = Heading
                      then 1 + countUntil isHeading (items s) (nextIndex + 1)
                      else if indent nextItem = INDENT_PARENT
                      then 1 + countUntil endsChildren (items s) (nextIndex + 1)
                      else 1);
                   newPosition = originalIndex + nextBlockCount;
                   its = moveBlock (items s) originalIndex count newPosition movingItems;
                   s1 = s\<lparr>items := its\<rparr>
               in if inHiddenArchiveFrom its (isArchiveHidden s) (nat newPosition) then s1
                  else selectItem newPosition s1)"

definition moveSingleItem :: "direction \<Rightarrow> state \<Rightarrow> state" where
  "moveSingleItem dir s =
     (case at (items s) (activeIndex s) of
        None \<Rightarrow> s
      | Some item \<Rightarrow>
          let originalIndex = activeIndex s;
              count = blockCount (items s) item originalIndex;
              movingItems = slice (items s) originalIndex (originalIndex + count)
          in if dir = Up then moveSingleUp item originalIndex count movingItems s
             else moveSingleDown item originalIndex count movingItems s)"

definition moveItem :: "direction \<Rightarrow> state \<Rightarrow> state" where
  "moveItem dir s =
     (if activeIndex s < 0 then s
      else if isArchiveHeading (at (items s) (activeIndex s)) then s
      else
        let s1 = saveState s
        in if length (selectedIndices s1) > 1 then moveMultipleItems dir s1
           else moveSingleItem dir s1)"

section \<open>Copy, cut, paste and duplicate\<close>

text \<open>
  The block of every item to process, found again by its identifier, as
  \<^verbatim>\<open>copyItems\<close>, \<^verbatim>\<open>cutItems\<close> and \<^verbatim>\<open>duplicateItems\<close> collect it.
\<close>

definition blocksOf :: "item list \<Rightarrow> item list \<Rightarrow> item list" where
  "blocksOf its itemsToProcess =
     concat (map (\<lambda>item.
        let index = findIndex (\<lambda>i. itemId i = itemId item) its
        in if index = -1 then [] else fst (getItemWithChildren its index)) itemsToProcess)"

definition copyItems :: "state \<Rightarrow> state" where
  "copyItems s =
     (if length (selectedIndices s) = 0 then s
      else
        let itemsToProcess = collectItemsToProcess (items s) (selectedIndices s) True
        in showNotification ''Copied'' (s\<lparr>clipboard := blocksOf (items s) itemsToProcess\<rparr>))"

definition cutItems :: "state \<Rightarrow> state" where
  "cutItems s =
     (if length (selectedIndices s) = 0 then s
      else
        let itemsToProcess = collectItemsToProcess (items s) (selectedIndices s) True;
            s1 = s\<lparr>clipboard := blocksOf (items s) itemsToProcess\<rparr>
        in showNotification ''Cut'' (deleteItems False (saveState s1)))"

definition selectRange :: "int \<Rightarrow> nat \<Rightarrow> state \<Rightarrow> state" where
  "selectRange insertIndex n s =
     s\<lparr>selectedIndices := map (\<lambda>idx. insertIndex + int idx) [0 ..< n],
       activeIndex := insertIndex, anchorIndex := insertIndex\<rparr>"

definition pasteItems :: "state \<Rightarrow> state" where
  "pasteItems s0 =
     (if length (clipboard s0) = 0 then s0
      else
        let s = saveState s0;
            insertIndex0 =
              (if activeIndex s \<ge> 0 then
                 (case at (items s) (activeIndex s) of
                    None \<Rightarrow> None
                  | Some activeItem \<Rightarrow>
                      if indent activeItem = INDENT_PARENT
                      then Some (activeIndex s + 1 + getChildCount (items s) (activeIndex s))
                      else Some (activeIndex s + 1))
               else Some (int (length (items s))))
        in case insertIndex0 of
             None \<Rightarrow> s
           | Some insertIndex1 \<Rightarrow>
               let archiveIndex = findArchiveIndex (items s);
                   insertIndex =
                     (if archiveIndex \<noteq> -1 \<and> insertIndex1 > archiveIndex then archiveIndex
                      else insertIndex1);
                   copies = deepCopyNewIds (clipboard s) (nextId s);
                   s1 = s\<lparr>nextId := nextId s + length (clipboard s)\<rparr>
               in (case adjustOrphanedIndent copies (items s1) insertIndex of
                     None \<Rightarrow> s1
                   | Some pastedItems \<Rightarrow>
                       let s2 = s1\<lparr>items := spliceArr (items s1) insertIndex 0 pastedItems\<rparr>;
                           s3 = selectRange insertIndex (length pastedItems) s2
                       in showNotification ''Pasted'' (selectItem insertIndex s3)))"

definition maxOfSet :: "int list \<Rightarrow> int" where
  "maxOfSet xs = fold max (tl xs) (hd xs)"

definition duplicateItems :: "state \<Rightarrow> state" where
  "duplicateItems s0 =
     (if length (selectedIndices s0) = 0 then s0
      else
        let s = saveState s0;
            maxIndex = maxOfSet (selectedIndices s);
            insertIndex = maxIndex + 1 + getChildCount (items s) maxIndex;
            itemsToProcess = collectItemsToProcess (items s) (selectedIndices s) True;
            itemsToDuplicate = blocksOf (items s) itemsToProcess;
            copies = deepCopyNewIds itemsToDuplicate (nextId s);
            s1 = s\<lparr>nextId := nextId s + length itemsToDuplicate\<rparr>
        in case adjustOrphanedIndent copies (items s1) insertIndex of
             None \<Rightarrow> s1
           | Some duplicatedItems \<Rightarrow>
               let s2 = s1\<lparr>items := spliceArr (items s1) insertIndex 0 duplicatedItems\<rparr>;
                   s3 = selectRange insertIndex (length duplicatedItems) s2
               in showNotification ''Duplicated'' (selectItem insertIndex s3))"

section \<open>Archive and restore\<close>

text \<open>
  The loop of \<^verbatim>\<open>moveToArchive\<close> over the items to move, bottom first: each block is
  cut out of the list, marked as checked and added to \<^verbatim>\<open>movedItems\<close>.
\<close>

definition archiveStep :: "item \<Rightarrow> item list \<times> item list \<Rightarrow> item list \<times> item list" where
  "archiveStep item acc =
     (let its = fst acc;
          movedItems = snd acc;
          index = findIndex (\<lambda>i. itemId i = itemId item) its
      in if index = -1 then acc
         else
           let block = getItemWithChildren its index;
               movingItems = fst block;
               count = snd block
           in (spliceArr its index count [],
               movedItems @ map (\<lambda>mi. mi\<lparr>isChecked := True\<rparr>) movingItems))"

fun archiveLoop :: "item list \<Rightarrow> item list \<times> item list \<Rightarrow> item list \<times> item list" where
  "archiveLoop [] acc = acc"
| "archiveLoop (item # rest) acc = archiveLoop rest (archiveStep item acc)"

definition addActiveIfEmpty :: "state \<Rightarrow> state" where
  "addActiveIfEmpty s =
     (if length (selectedIndices s) = 0 \<and> activeIndex s \<ge> 0
      then s\<lparr>selectedIndices := setAdd (activeIndex s) (selectedIndices s)\<rparr>
      else s)"

definition moveToArchive :: "state \<Rightarrow> state" where
  "moveToArchive s0 =
     (let sa = addActiveIfEmpty s0
      in if length (selectedIndices sa) = 0 then sa
         else
           let s = saveState sa;
               itemsToMove = collectItemsToProcess (items s) (selectedIndices s) True
           in if length itemsToMove = 0 then s
              else if list_ex (\<lambda>idx. at (items s) idx = None) (selectedIndices s) then s
              else
                let minMovedIndex = minOfSet (selectedIndices s);
                    deletedTypes = map (\<lambda>idx. deletedTypeOf (items s ! nat idx))
                                     (selectedIndices s);
                    sorted = sort_key (\<lambda>a. - findIndex (\<lambda>i. itemId i = itemId a) (items s))
                               itemsToMove;
                    (its, movedItems) = archiveLoop sorted (items s, []);
                    n = int (length its);
                    cursor = (if minMovedIndex \<ge> n \<and> n > 0 then n - 1
                              else if n > 0 then minMovedIndex else -1);
                    a = adjustCursorAfterDeletion its cursor deletedTypes;
                    s1 = s\<lparr>items := its, archivedItems := movedItems @ archivedItems s,
                           activeIndex := a,
                           selectedIndices := (if a \<ge> 0 then [a] else []),
                           anchorIndex := -1\<rparr>
                in showNotification (showNat (length movedItems) @ '' item(s) archived'') s1)"

text \<open>
  \<^verbatim>\<open>moveFromArchive\<close>: the family of every selected archive index. The scan for the
  parent of a child walks up from \<^verbatim>\<open>index - 1\<close>.
\<close>

fun archivedParentFrom :: "item list \<Rightarrow> nat \<Rightarrow> int" where
  "archivedParentFrom arch 0 = -1"
| "archivedParentFrom arch (Suc i) =
     (if indent (arch ! i) = INDENT_PARENT then int i else archivedParentFrom arch i)"

definition familyOf :: "item list \<Rightarrow> int \<Rightarrow> int list" where
  "familyOf arch parentIndex =
     parentIndex # indicesAfter parentIndex (countUntil isParentIndent arch (parentIndex + 1))"

fun restoreLoop :: "item list \<Rightarrow> int list \<Rightarrow> int list \<Rightarrow> int list option" where
  "restoreLoop arch [] indicesToRestore = Some indicesToRestore"
| "restoreLoop arch (index # rest) indicesToRestore =
     (if index \<in> set indicesToRestore then restoreLoop arch rest indicesToRestore
      else case at arch index of
             None \<Rightarrow> None
           | Some item \<Rightarrow>
               if indent item = INDENT_PARENT
               then restoreLoop arch rest (fold setAdd (familyOf arch index) indicesToRestore)
               else
                 let parentIndex = archivedParentFrom arch (nat index)
                 in if parentIndex \<noteq> -1
                    then restoreLoop arch rest
                           (fold setAdd (familyOf arch parentIndex) indicesToRestore)
                    else restoreLoop arch rest (setAdd index indicesToRestore))"

text \<open>
  Removal from the archive, largest index first; every removed item is unchecked and
  pushed, and the pushed list is reversed before it is appended to the main list.
\<close>

fun removeLoop :: "int list \<Rightarrow> item list \<Rightarrow> item list \<Rightarrow> item list \<times> item list" where
  "removeLoop [] arch movedItems = (arch, movedItems)"
| "removeLoop (index # rest) arch movedItems =
     (case at arch index of
        None \<Rightarrow> removeLoop rest arch movedItems
      | Some item \<Rightarrow>
          removeLoop rest (spliceArr arch index 1 []) (movedItems @ [item\<lparr>isChecked := False\<rparr>]))"

definition moveFromArchive :: "state \<Rightarrow> state" where
  "moveFromArchive s0 =
     (if length (archivedSelectedIndices s0) = 0 then s0
      else
        let s = saveState s0
        in case restoreLoop (archivedItems s) (sortAsc (archivedSelectedIndices s)) [] of
             None \<Rightarrow> s
           | Some indicesToRestore \<Rightarrow>
               let indicesToRemove = sortDesc indicesToRestore;
                   (arch, pushed) = removeLoop indicesToRemove (archivedItems s) [];
                   movedItems = rev pushed;
                   its = items s @ movedItems;
                   startIndex = int (length its) - int (length movedItems);
                   s1 = s\<lparr>items := its, archivedItems := arch,
                          archivedSelectedIndices := [], isArchiveActive := False\<rparr>;
                   s2 = selectRange startIndex (length movedItems) s1
               in showNotification (showNat (length movedItems) @ '' item(s) restored'') s2)"

section \<open>Moving items to the next or the previous heading\<close>

text \<open>
  The scan of \<^verbatim>\<open>moveToNextHeading\<close> for the next heading from a position on: \<open>None\<close>
  when there is none or when the first heading met is the Archive heading.
\<close>

fun nextHeadingFrom :: "item list \<Rightarrow> int \<Rightarrow> int option" where
  "nextHeadingFrom [] i = None"
| "nextHeadingFrom (x # xs) i =
     (if itemType x = Heading then (if isArchive x then None else Some i)
      else nextHeadingFrom xs (i + 1))"

definition promote :: "item \<Rightarrow> item list \<Rightarrow> item list" where
  "promote item movingItems =
     (if indent item = INDENT_CHILD
      then (case movingItems of
              [] \<Rightarrow> []
            | first # rest \<Rightarrow> first\<lparr>indent := INDENT_PARENT\<rparr> # rest)
      else movingItems)"

definition nextHeadingStep :: "item \<Rightarrow> item list \<times> bool \<Rightarrow> item list \<times> bool" where
  "nextHeadingStep item acc =
     (let its = fst acc;
          index = findIndex (\<lambda>i. itemId i = itemId item) its
      in if index = -1 then acc
         else
           let block = getItemWithChildren its index;
               movingItems = fst block;
               count = snd block
           in (case nextHeadingFrom (drop (nat (index + count)) its) (index + count) of
                 None \<Rightarrow> acc
               | Some nextHeadingIndex \<Rightarrow>
                   let newHeadingIndex = nextHeadingIndex - count;
                       insertIndex = newHeadingIndex + 1
                   in (spliceArr (spliceArr its index count []) insertIndex 0
                         (promote item movingItems),
                       True)))"

fun nextHeadingLoop :: "item list \<Rightarrow> item list \<times> bool \<Rightarrow> item list \<times> bool" where
  "nextHeadingLoop [] acc = acc"
| "nextHeadingLoop (item # rest) acc = nextHeadingLoop rest (nextHeadingStep item acc)"

definition moveToNextHeading :: "state \<Rightarrow> state" where
  "moveToNextHeading s0 =
     (let sa = addActiveIfEmpty s0
      in if length (selectedIndices sa) = 0 then sa
         else
           let s = saveState sa;
               capturedState = captureState (items s) s;
               itemsToMove = rev (collectItemsToProcess (items s) (selectedIndices s) True);
               (its, anyMoved) = nextHeadingLoop itemsToMove (items s, False)
           in if \<not> anyMoved then s\<lparr>items := its\<rparr>
              else restoreState its capturedState (s\<lparr>items := its\<rparr>))"

definition headingsAbove :: "item list \<Rightarrow> int \<Rightarrow> int list" where
  "headingsAbove its index =
     filter (\<lambda>i. itemType (its ! nat i) = Heading) (rev (map int [0 ..< nat index]))"

definition prevInsertIndex :: "item list \<Rightarrow> int \<Rightarrow> int" where
  "prevInsertIndex its index =
     (case headingsAbove its index of
        [] \<Rightarrow> 0
      | [h] \<Rightarrow> h + 1
      | h # h2 # _ \<Rightarrow> h2 + 1)"

definition prevHeadingStep :: "item \<Rightarrow> item list \<times> bool \<Rightarrow> item list \<times> bool" where
  "prevHeadingStep item acc =
     (let its = fst acc;
          index = findIndex (\<lambda>i. itemId i = itemId item) its
      in if index = -1 then acc
         else
           let block = getItemWithChildren its index;
               movingItems = fst block;
               count = snd block;
               insertIndex = prevInsertIndex its index
           in if insertIndex = index then acc
              else (spliceArr (spliceArr its index count []) insertIndex 0
                      (promote item movingItems),
                    True))"

fun prevHeadingLoop :: "item list \<Rightarrow> item list \<times> bool \<Rightarrow> item list \<times> bool" where
  "prevHeadingLoop [] acc = acc"
| "prevHeadingLoop (item # rest) acc = prevHeadingLoop rest (prevHeadingStep item acc)"

definition moveToPrevHeading :: "state \<Rightarrow> state" where
  "moveToPrevHeading s0 =
     (let sa = addActiveIfEmpty s0
      in if length (selectedIndices sa) = 0 then sa
         else
           let s = saveState sa;
               capturedState = captureState (items s) s;
               itemsToMove = rev (collectItemsToProcess (items s) (selectedIndices s) True);
               (its, anyMoved) = prevHeadingLoop itemsToMove (items s, False)
           in if \<not> anyMoved then s\<lparr>items := its\<rparr>
              else restoreState its capturedState (s\<lparr>items := its\<rparr>))"

section \<open>The Markdown reader and writer (src/parser.ts)\<close>

text \<open>
  Strings are lists of code units below 256. \<^verbatim>\<open>content.split('\n')\<close> cuts at every
  line feed; a text that ends with one has an empty last line.
\<close>

definition newline :: char where
  "newline = CHR 0x0A"

definition tab :: char where
  "tab = CHR 0x09"

fun splitLines :: "string \<Rightarrow> string list" where
  "splitLines [] = [[]]"
| "splitLines (c # cs) =
     (if c = newline then [] # splitLines cs
      else (case splitLines cs of
              [] \<Rightarrow> [[c]]
            | l # ls \<Rightarrow> (c # l) # ls))"

definition joinLines :: "string list \<Rightarrow> string" where
  "joinLines ls = (case ls of [] \<Rightarrow> [] | l # rest \<Rightarrow> l @ concat (map (\<lambda>x. newline # x) rest))"

definition startsWith :: "string \<Rightarrow> string \<Rightarrow> bool" where
  "startsWith str p = (take (length p) str = p)"

text \<open>
  The regular expression \<^verbatim>\<open>/^(\s*)-\s\[([ x])\]\s(.*)$/\<close>. The first group is the
  whole run of white space before the dash, since the dash is not white space. The dot
  matches no line terminator and \<^verbatim>\<open>$\<close> is the end of the string, so a line with a
  carriage return after the bracket does not match. The result holds the groups:
  the indentation, whether the box holds an \<^verbatim>\<open>x\<close>, and the title.
\<close>

definition isLineTerminator :: "char \<Rightarrow> bool" where
  "isLineTerminator c = (c = CHR 0x0A \<or> c = CHR 0x0D)"

definition todoMatch :: "string \<Rightarrow> (string \<times> bool \<times> string) option" where
  "todoMatch line =
     (let indentStr = takeWhile isWhiteSpace line
      in case dropWhile isWhiteSpace line of
           d # w1 # lb # box # rb # w2 # rest \<Rightarrow>
             if d = CHR ''-'' \<and> isWhiteSpace w1 \<and> lb = CHR ''['' \<and> (box = CHR '' '' \<or> box = CHR ''x'')
                \<and> rb = CHR '']'' \<and> isWhiteSpace w2 \<and> \<not> list_ex isLineTerminator rest
             then Some (indentStr, box = CHR ''x'', rest)
             else None
         | _ \<Rightarrow> None)"

text \<open>
  \<^verbatim>\<open>lastItem\<close> points at the item created last, which is the last element of the list
  it was pushed to; writing its note changes that element.
\<close>

datatype target = MainList | ArchiveList

record parser =
  pItems :: "item list"
  pArchivedItems :: "item list"
  currentNote :: "string list"
  collectingNote :: bool
  lastItem :: "target option"
  inArchiveSection :: bool
  freshId :: nat

definition setLastNote :: "string \<Rightarrow> item list \<Rightarrow> item list" where
  "setLastNote n l = (case rev l of [] \<Rightarrow> [] | x # xs \<Rightarrow> rev xs @ [x\<lparr>itemNote := n\<rparr>])"

definition todoIndent :: "string \<Rightarrow> int" where
  "todoIndent indentStr =
     (let i = (if tab \<in> set indentStr then int (length (filter (\<lambda>c. c = tab) indentStr))
               else int (length indentStr div 4))
      in if i > 1 then 1 else i)"

definition parseLine :: "string \<Rightarrow> parser \<Rightarrow> parser" where
  "parseLine line p =
     (let trimmedLine = trim line
      in if startsWith trimmedLine ''```plane''
         then p\<lparr>collectingNote := True, currentNote := []\<rparr>
         else if collectingNote p then
           (if startsWith trimmedLine ''```'' then
              (case lastItem p of
                 None \<Rightarrow> p\<lparr>collectingNote := False\<rparr>
               | Some MainList \<Rightarrow>
                   p\<lparr>collectingNote := False,
                     pItems := setLastNote (joinLines (currentNote p)) (pItems p)\<rparr>
               | Some ArchiveList \<Rightarrow>
                   p\<lparr>collectingNote := False,
                     pArchivedItems :=
                       setLastNote (joinLines (currentNote p)) (pArchivedItems p)\<rparr>)
            else p\<lparr>currentNote := currentNote p @ [trim line]\<rparr>)
         else if startsWith trimmedLine ''## '' then
           (let t = trim (drop 3 trimmedLine)
            in if t = ''Archive'' then p\<lparr>inArchiveSection := True\<rparr>
               else
                 p\<lparr>inArchiveSection := False,
                   pItems := pItems p @
                     [\<lparr> itemId = freshId p, itemType = Heading, title = t, indent = 0,
                        isChecked = False, itemNote = [] \<rparr>],
                   lastItem := Some MainList,
                   freshId := Suc (freshId p)\<rparr>)
         else
           (case todoMatch line of
              None \<Rightarrow> p
            | Some (indentStr, checked, t) \<Rightarrow>
                let todo = \<lparr> itemId = freshId p, itemType = Todo, title = t,
                             indent = todoIndent indentStr, isChecked = checked,
                             itemNote = [] \<rparr>
                in if inArchiveSection p
                   then p\<lparr>pArchivedItems := pArchivedItems p @ [todo\<lparr>isChecked := True\<rparr>],
                          lastItem := Some ArchiveList, freshId := Suc (freshId p)\<rparr>
                   else p\<lparr>pItems := pItems p @ [todo],
                          lastItem := Some MainList, freshId := Suc (freshId p)\<rparr>))"

definition parserStart :: "nat \<Rightarrow> parser" where
  "parserStart fresh =
     \<lparr> pItems = [], pArchivedItems = [], currentNote = [], collectingNote = False,
       lastItem = None, inArchiveSection = False, freshId = fresh \<rparr>"

fun parseLines :: "string list \<Rightarrow> parser \<Rightarrow> parser" where
  "parseLines [] p = p"
| "parseLines (line # rest) p = parseLines rest (parseLine line p)"

text \<open>
  \<^verbatim>\<open>parseMarkdown(content)\<close>; the first argument is the supply of identifiers for the
  items it creates. A heading has no \<^verbatim>\<open>isChecked\<close> field, which reads as false.
\<close>

definition parseMarkdown :: "nat \<Rightarrow> string \<Rightarrow> item list \<times> item list" where
  "parseMarkdown fresh content =
     (let p = parseLines (splitLines content) (parserStart fresh)
      in (pItems p, pArchivedItems p))"







section \<open>Keyboard and mouse handlers\<close>

definition handleTab :: "bool \<Rightarrow> state \<Rightarrow> state" where
  "handleTab shiftKey s =
     (if isArchiveActive s then s
      else if length (selectedIndices s) > 0
      then changeIndent (if shiftKey then -1 else 1) (saveState s)
      else s)"

definition handleDelete :: "state \<Rightarrow> state" where
  "handleDelete s =
     (if isArchiveActive s
      then (if length (archivedSelectedIndices s) > 0 then deleteArchivedItems (saveState s)
            else s)
      else if length (selectedIndices s) > 0 then deleteItems True (saveState s)
      else s)"

definition selectedTodos :: "state \<Rightarrow> item list" where
  "selectedTodos s =
     filter (\<lambda>i. itemType i = Todo)
       (concat (map (\<lambda>index. case at (items s) index of None \<Rightarrow> [] | Some i \<Rightarrow> [i])
                    (selectedIndices s)))"

definition handleSpace :: "state \<Rightarrow> state" where
  "handleSpace s0 =
     (if isArchiveActive s0 then s0
      else if length (selectedIndices s0) = 0 then s0
      else
        let s = saveState s0;
            hasUnchecked = list_ex (\<lambda>i. \<not> isChecked i) (selectedTodos s)
        in s\<lparr>items :=
               map (\<lambda>(k, i). if int k \<in> set (selectedIndices s) \<and> itemType i = Todo
                              then i\<lparr>isChecked := hasUnchecked\<rparr> else i)
                   (zip [0 ..< length (items s)] (items s))\<rparr>)"

text \<open>
  \<^verbatim>\<open>handleEnter\<close>: the setting \<^verbatim>\<open>newItemTrigger\<close> and the shift key decide whether the
  key adds an item or edits the active one; the argument says which.
\<close>

definition handleEnter :: "bool \<Rightarrow> state \<Rightarrow> state" where
  "handleEnter isNewItemTrigger s =
     (if isArchiveHeaderSelected s then s\<lparr>isArchiveHidden := \<not> isArchiveHidden s\<rparr>
      else if isArchiveActive s then s
      else if isNewItemTrigger then
        (if activeIndex s \<ge> 0 then addItem Todo (Some (activeIndex s + 1)) None s
         else addItem Todo None None s)
      else if activeIndex s \<ge> 0 then
        (case at (items s) (activeIndex s) of
           None \<Rightarrow> s
         | Some item \<Rightarrow> startEditing (itemId item) False s)
      else s)"

text \<open>
  The arrow keys with the move modifier held. \<^verbatim>\<open>handleKeydown\<close> drops the up and
  down keys while the main list is empty.
\<close>

definition handleArrowUpDown :: "direction \<Rightarrow> state \<Rightarrow> state" where
  "handleArrowUpDown dir s =
     (if length (items s) = 0 then s
      else if \<not> isArchiveActive s \<and> \<not> isArchiveHeaderSelected s then moveItem dir s
      else s)"

definition handleArrowRight :: "bool \<Rightarrow> state \<Rightarrow> state" where
  "handleArrowRight shiftKey s =
     (if isArchiveActive s then s
      else if shiftKey then moveToArchive s
      else moveToNextHeading s)"

definition handleArrowLeft :: "bool \<Rightarrow> state \<Rightarrow> state" where
  "handleArrowLeft shiftKey s =
     (if shiftKey then moveFromArchive s
      else if \<not> isArchiveActive s then moveToPrevHeading s
      else s)"

definition handleZ :: "bool \<Rightarrow> state \<Rightarrow> state" where
  "handleZ shiftKey s = (if shiftKey then redo s else undo s)"

text \<open>
  A plain click on a rendered item of the main list, on the archive header and on a
  rendered item of the archive. An item under edit has no click handler, and the
  archive's items are rendered only while it is open.
\<close>

definition clickItem :: "int \<Rightarrow> state \<Rightarrow> state" where
  "clickItem index s =
     (case at (items s) index of
        None \<Rightarrow> s
      | Some item \<Rightarrow>
          if editingId s = Some (itemId item) then s
          else selectItem index
                 (s\<lparr>archivedSelectedIndices := [], archivedActiveIndex := -1,
                    archivedAnchorIndex := -1, isArchiveActive := False,
                    isArchiveHeaderSelected := False\<rparr>))"

definition clickArchiveHeader :: "state \<Rightarrow> state" where
  "clickArchiveHeader s =
     (if length (archivedItems s) > 0 then s\<lparr>isArchiveHidden := \<not> isArchiveHidden s\<rparr> else s)"

definition clickArchivedItem :: "int \<Rightarrow> state \<Rightarrow> state" where
  "clickArchivedItem index s =
     (if isArchiveHidden s \<or> at (archivedItems s) index = None then s
      else s\<lparr>selectedIndices := [], activeIndex := -1, anchorIndex := -1,
             isArchiveActive := True, isArchiveHeaderSelected := False,
             archivedSelectedIndices := [index], archivedActiveIndex := index,
             archivedAnchorIndex := index\<rparr>)"

definition clickCheckbox :: "int \<Rightarrow> state \<Rightarrow> state" where
  "clickCheckbox index s =
     (case at (items s) index of
        None \<Rightarrow> s
      | Some item \<Rightarrow>
          if itemType item = Todo
          then s\<lparr>items := (items s)[nat index := item\<lparr>isChecked := \<not> isChecked item\<rparr>]\<rparr>
          else s)"

definition doubleClickItem :: "int \<Rightarrow> state \<Rightarrow> state" where
  "doubleClickItem index s =
     (case at (items s) index of
        None \<Rightarrow> s
      | Some item \<Rightarrow>
          if editingId s = Some (itemId item) then s else startEditing (itemId item) False s)"

text \<open>
  Tab in the edit field writes the text into the item and changes its indent under the
  rule of \<^verbatim>\<open>canChangeIndent\<close>, without a snapshot.
\<close>

definition editOnTab :: "bool \<Rightarrow> string \<Rightarrow> state \<Rightarrow> state" where
  "editOnTab isShift v s0 =
     (let s = setEditedTitle v s0
      in case editingId s of
           None \<Rightarrow> s
         | Some eid \<Rightarrow>
             let index = findIndex (\<lambda>i. itemId i = eid) (items s)
             in (case at (items s) index of
                   None \<Rightarrow> s
                 | Some item \<Rightarrow>
                     let newIndent = indent item + (if isShift then -1 else 1)
                     in if newIndent \<ge> INDENT_PARENT \<and> newIndent \<le> INDENT_MAX
                           \<and> (isShift \<or> (index > 0
                                \<and> map_option itemType (at (items s) (index - 1)) \<noteq> Some Heading))
                        then s\<lparr>items := (items s)[nat index := item\<lparr>indent := newIndent\<rparr>]\<rparr>
                        else s))"

text \<open>
  The note field of the inspector, shown for the active item of the main list: focusing
  it, typing the text \<open>v\<close> and leaving it. The \<^verbatim>\<open>focus\<close> handler keeps the old note in
  \<^verbatim>\<open>noteOriginalValue\<close> and the \<^verbatim>\<open>input\<close> handler writes the text as typed into the
  item. \<^verbatim>\<open>stopEditingNote\<close> reads a text of white space only as the empty string; when
  that differs from the old note it puts the old note back, takes the snapshot and
  stores the new value, and otherwise it leaves the item as the \<^verbatim>\<open>input\<close> handler wrote
  it.
\<close>

definition editNote :: "string \<Rightarrow> state \<Rightarrow> state" where
  "editNote v s =
     (if isArchiveActive s \<or> isArchiveHeaderSelected s then s
      else case at (items s) (activeIndex s) of
             None \<Rightarrow> s
           | Some item \<Rightarrow>
               let noteOriginalValue = itemNote item;
                   typed = s\<lparr>items := (items s)[nat (activeIndex s) := item\<lparr>itemNote := v\<rparr>]\<rparr>;
                   newValue = (if length (trim v) = 0 then [] else v)
               in if newValue \<noteq> noteOriginalValue
                  then let s1 = saveState
                                  (typed\<lparr>items := (items typed)[nat (activeIndex s) :=
                                             item\<lparr>itemNote := noteOriginalValue\<rparr>]\<rparr>)
                       in s1\<lparr>items := (items s1)[nat (activeIndex s) :=
                                          item\<lparr>itemNote := newValue\<rparr>]\<rparr>
                  else typed)"

text \<open>
  The messages of the extension host: \<^verbatim>\<open>update\<close> carries the two lists that
  \<^verbatim>\<open>parseMarkdown\<close> read from the file, \<^verbatim>\<open>clearArchiveConfirmed\<close> empties the archive.
\<close>

definition updateMessage :: "item list \<Rightarrow> item list \<Rightarrow> state \<Rightarrow> state" where
  "updateMessage its arch s =
     (let s1 = validate its (s\<lparr>items := its, archivedItems := arch\<rparr>)
      in s1\<lparr>archivedSelectedIndices := [], archivedActiveIndex := -1,
            archivedAnchorIndex := -1, isArchiveActive := False,
            isArchiveHeaderSelected := False\<rparr>)"

definition clearArchiveConfirmed :: "state \<Rightarrow> state" where
  "clearArchiveConfirmed s =
     (saveState s)\<lparr>archivedItems := [], archivedSelectedIndices := [],
                   archivedActiveIndex := -1, archivedAnchorIndex := -1\<rparr>"

text \<open>
  The other selection gestures (shift and control clicks, the plain arrow keys, select
  all) assign the selection variables and nothing else. The model does not follow each
  of them: the event \<open>Gesture\<close> assigns these variables any values, which covers
  whatever the gestures can produce.
\<close>

record selection =
  selSelectedIndices :: "int list"
  selActiveIndex :: int
  selAnchorIndex :: int
  selArchivedSelectedIndices :: "int list"
  selArchivedActiveIndex :: int
  selArchivedAnchorIndex :: int
  selIsArchiveActive :: bool
  selIsArchiveHeaderSelected :: bool
  selIsArchiveHidden :: bool

definition gesture :: "selection \<Rightarrow> state \<Rightarrow> state" where
  "gesture g s =
     s\<lparr>selectedIndices := selSelectedIndices g, activeIndex := selActiveIndex g,
       anchorIndex := selAnchorIndex g,
       archivedSelectedIndices := selArchivedSelectedIndices g,
       archivedActiveIndex := selArchivedActiveIndex g,
       archivedAnchorIndex := selArchivedAnchorIndex g,
       isArchiveActive := selIsArchiveActive g,
       isArchiveHeaderSelected := selIsArchiveHeaderSelected g,
       isArchiveHidden := selIsArchiveHidden g\<rparr>"

datatype event =
    KeyMove direction
  | KeyArrowRight bool
  | KeyArrowLeft bool
  | KeyEnter bool
  | KeySpace
  | KeyDelete
  | KeyTab bool
  | KeyZ bool
  | KeyC
  | KeyX
  | KeyV
  | KeyD
  | ClickAddTodo
  | ClickAddHeading
  | EditEnter string
  | EditEscape string
  | EditBlur string
  | EditTab bool string
  | ClickItem int
  | DoubleClickItem int
  | ClickCheckbox int
  | NoteInput string
  | ClickArchiveHeader
  | ClickArchivedItem int
  | Gesture selection
  | Update nat string
  | ClearArchiveConfirmed

text \<open>\<^verbatim>\<open>handleKeydown\<close> ignores every key while an item is being edited.\<close>

definition handleKeydown :: "(state \<Rightarrow> state) \<Rightarrow> state \<Rightarrow> state" where
  "handleKeydown handler s = (if editingId s \<noteq> None then s else handler s)"

fun step :: "event \<Rightarrow> state \<Rightarrow> state" where
  "step (KeyMove dir) s = handleKeydown (handleArrowUpDown dir) s"
| "step (KeyArrowRight shiftKey) s = handleKeydown (handleArrowRight shiftKey) s"
| "step (KeyArrowLeft shiftKey) s = handleKeydown (handleArrowLeft shiftKey) s"
| "step (KeyEnter isNewItemTrigger) s = handleKeydown (handleEnter isNewItemTrigger) s"
| "step KeySpace s = handleKeydown handleSpace s"
| "step KeyDelete s = handleKeydown handleDelete s"
| "step (KeyTab shiftKey) s = handleKeydown (handleTab shiftKey) s"
| "step (KeyZ shiftKey) s = handleKeydown (handleZ shiftKey) s"
| "step KeyC s = handleKeydown copyItems s"
| "step KeyX s = handleKeydown cutItems s"
| "step KeyV s = handleKeydown pasteItems s"
| "step KeyD s = handleKeydown duplicateItems s"
| "step ClickAddTodo s = addItem Todo None None s"
| "step ClickAddHeading s = addItem Heading None None s"
| "step (EditEnter v) s = editOnEnter v s"
| "step (EditEscape v) s = editOnEscape v s"
| "step (EditBlur v) s = editOnBlur v s"
| "step (EditTab isShift v) s = editOnTab isShift v s"
| "step (ClickItem index) s = clickItem index s"
| "step (DoubleClickItem index) s = doubleClickItem index s"
| "step (ClickCheckbox index) s = clickCheckbox index s"
| "step (NoteInput v) s = editNote v s"
| "step ClickArchiveHeader s = clickArchiveHeader s"
| "step (ClickArchivedItem index) s = clickArchivedItem index s"
| "step (Gesture g) s = gesture g s"
| "step (Update fresh content) s =
     (case parseMarkdown fresh content of (its, arch) \<Rightarrow> updateMessage its arch s)"
| "step ClearArchiveConfirmed s = clearArchiveConfirmed s"

fun run :: "event list \<Rightarrow> state \<Rightarrow> state" where
  "run [] s = s"
| "run (e # es) s = run es (step e s)"

inductive reachable :: "state \<Rightarrow> bool" where
  reachable_init: "reachable initialState"
| reachable_step: "reachable s \<Longrightarrow> reachable (step e s)"

section \<open>Notions used to state the properties\<close>

text \<open>The \<open>k\<close> newest entries of a stack, which grows at its end.\<close>

definition lastn :: "nat \<Rightarrow> 'a list \<Rightarrow> 'a list" where
  "lastn k xs = drop (length xs - k) xs"

text \<open>
  An operation that leads from \<open>s\<close> to \<open>t\<close> pushes exactly one snapshot when the undo
  stack of \<open>t\<close> is the undo stack of \<open>s\<close> with one entry added at the end, cut to its
  50 newest entries. The entry is the last one of the stack of \<open>t\<close>; what it holds is
  left open. A run of such operations is the list of the states between them.
\<close>

definition pushesOne :: "state \<Rightarrow> state \<Rightarrow> bool" where
  "pushesOne s t =
     (history t \<noteq> []
      \<and> history t = lastn MAX_HISTORY_SIZE (history s @ [last (history t)]))"

fun pushing :: "state list \<Rightarrow> bool" where
  "pushing [] = True"
| "pushing [s] = True"
| "pushing (s # t # ss) = (pushesOne s t \<and> pushing (t # ss))"

text \<open>Two tasks entered through the user interface, the second one active.\<close>

definition twoTasks :: state where
  "twoTasks = run [ClickAddTodo, EditEnter ''x'', KeyEnter True, EditEnter ''y''] initialState"

text \<open>Indent, outdent and delete of the second task, as the states after each key.\<close>

definition threeEdits :: "state list" where
  "threeEdits =
     [run [KeyTab False] twoTasks,
      run [KeyTab False, KeyTab True] twoTasks,
      run [KeyTab False, KeyTab True, KeyDelete] twoTasks]"

text \<open>
  One task \<open>x\<close>, entered through the user interface and opened for editing again with a
  double click.
\<close>

definition renaming :: state where
  "renaming = run [ClickAddTodo, EditEnter ''x'', DoubleClickItem 0] initialState"

text \<open>The items of the scenarios.\<close>

definition mkHeading :: "nat \<Rightarrow> string \<Rightarrow> item" where
  "mkHeading k t =
     \<lparr> itemId = k, itemType = Heading, title = t, indent = 0, isChecked = False,
       itemNote = [] \<rparr>"

definition mkTodo :: "nat \<Rightarrow> int \<Rightarrow> string \<Rightarrow> item" where
  "mkTodo k i t =
     \<lparr> itemId = k, itemType = Todo, title = t, indent = i, isChecked = False,
       itemNote = [] \<rparr>"

text \<open>
  Heading A, task x and its subtask y, with x selected and one item in the archive
  already.
\<close>

definition archiveScenario :: state where
  "archiveScenario =
     initialState\<lparr>items := [mkHeading 1 ''A'', mkTodo 2 0 ''x'', mkTodo 3 1 ''y''],
                  archivedItems := [(mkTodo 9 0 ''old'')\<lparr>isChecked := True\<rparr>],
                  selectedIndices := [1], activeIndex := 1, anchorIndex := 1,
                  nextId := 10\<rparr>"

text \<open>
  The insert position of Paste in the words of the specification, written with list
  functions only. A parent is a task of indent 0, its children are the tasks of indent 1
  that follow it without a gap, and its block is the parent with its children. The
  Archive sentinel is the first heading titled Archive; the items in front of it are
  those that come before any such heading. Paste goes behind the block of an active
  parent, right behind any other active item, to the end of the list when no item is
  active, and in front of the sentinel when that position lies behind it.
\<close>

definition isParentTask :: "item \<Rightarrow> bool" where
  "isParentTask x = (itemType x = Todo \<and> indent x = 0)"

definition isChildTask :: "item \<Rightarrow> bool" where
  "isChildTask x = (itemType x = Todo \<and> indent x = 1)"

definition childrenOf :: "item list \<Rightarrow> nat \<Rightarrow> item list" where
  "childrenOf its i = takeWhile isChildTask (drop (Suc i) its)"

definition isSentinel :: "item \<Rightarrow> bool" where
  "isSentinel x = (itemType x = Heading \<and> title x = ''Archive'')"

definition beforeSentinel :: "item list \<Rightarrow> item list" where
  "beforeSentinel its = takeWhile (\<lambda>x. \<not> isSentinel x) its"

definition pasteTarget :: "item list \<Rightarrow> int \<Rightarrow> nat" where
  "pasteTarget its active =
     (let wanted =
            (if active < 0 then length its
             else if isParentTask (its ! nat active)
             then Suc (nat active) + length (childrenOf its (nat active))
             else Suc (nat active))
      in if list_ex isSentinel its \<and> wanted > length (beforeSentinel its)
         then length (beforeSentinel its)
         else wanted)"

text \<open>
  The clones of the clipboard: the same items with the identifiers \<open>fresh\<close>,
  \<open>fresh + 1\<close>, and so on. When the first one is a child (indent 1) and the nearest item
  above the insert position that is not a child task is no parent, it gets indent 0.
\<close>

fun clonesFrom :: "nat \<Rightarrow> item list \<Rightarrow> item list" where
  "clonesFrom fresh [] = []"
| "clonesFrom fresh (x # xs) = x\<lparr>itemId := fresh\<rparr> # clonesFrom (Suc fresh) xs"

definition hasOwner :: "item list \<Rightarrow> nat \<Rightarrow> bool" where
  "hasOwner its pos =
     (case dropWhile isChildTask (rev (take pos its)) of
        [] \<Rightarrow> False
      | x # higher \<Rightarrow> isParentTask x)"

definition pastedItems :: "item list \<Rightarrow> nat \<Rightarrow> item list \<Rightarrow> nat \<Rightarrow> item list" where
  "pastedItems cb fresh its pos =
     (case clonesFrom fresh cb of
        [] \<Rightarrow> []
      | c # cs \<Rightarrow> (if indent c = 1 \<and> \<not> hasOwner its pos then c\<lparr>indent := 0\<rparr> else c) # cs)"

definition indentsInRange :: "item list \<Rightarrow> bool" where
  "indentsInRange its = list_all (\<lambda>x. indent x = 0 \<or> indent x = 1) its"

text \<open>Clipboard [task X], list [heading H], no active item.\<close>

definition pasteScenario :: state where
  "pasteScenario =
     initialState\<lparr>items := [mkHeading 1 ''H''], clipboard := [mkTodo 2 0 ''X''],
                  nextId := 10\<rparr>"

text \<open>
  Clipboard [child X] and the list [p, c1, c2, q] with the parent p active and its
  children c1 and c2.
\<close>

definition pasteFamily :: state where
  "pasteFamily =
     initialState\<lparr>items := [mkTodo 1 0 ''p'', mkTodo 2 1 ''c1'', mkTodo 3 1 ''c2'',
                            mkTodo 4 0 ''q''],
                  clipboard := [mkTodo 5 1 ''X''], activeIndex := 0, anchorIndex := 0,
                  selectedIndices := [0], nextId := 10\<rparr>"

text \<open>
  Clipboard [task X] and the list [p, heading Archive, old] with the task behind the
  Archive heading active.
\<close>

definition pasteBehindArchive :: state where
  "pasteBehindArchive =
     initialState\<lparr>items := [mkTodo 1 0 ''p'', mkHeading 2 ''Archive'', mkTodo 3 0 ''old''],
                  clipboard := [mkTodo 5 0 ''X''], activeIndex := 2, anchorIndex := 2,
                  selectedIndices := [2], nextId := 10\<rparr>"

text \<open>Clipboard [child X] and the list [heading H] with the heading active.\<close>

definition pasteOrphan :: state where
  "pasteOrphan =
     initialState\<lparr>items := [mkHeading 1 ''H''], clipboard := [mkTodo 5 1 ''X''],
                  activeIndex := 0, anchorIndex := 0, selectedIndices := [0],
                  nextId := 10\<rparr>"

text \<open>The state after undoing the entry of the second task: one task, and a redo stack.\<close>

definition afterUndo :: state where
  "afterUndo = run [KeyZ False] twoTasks"

text \<open>
  Whether \<^verbatim>\<open>moveToNextHeading\<close> and \<^verbatim>\<open>moveToPrevHeading\<close> move anything: the value of
  \<^verbatim>\<open>anyMoved\<close> after the loop.
\<close>

definition nextHeadingMoved :: "state \<Rightarrow> bool" where
  "nextHeadingMoved s =
     (let sa = addActiveIfEmpty s
      in snd (nextHeadingLoop (rev (collectItemsToProcess (items sa) (selectedIndices sa) True))
                (items sa, False)))"

definition prevHeadingMoved :: "state \<Rightarrow> bool" where
  "prevHeadingMoved s =
     (let sa = addActiveIfEmpty s
      in snd (prevHeadingLoop (rev (collectItemsToProcess (items sa) (selectedIndices sa) True))
                (items sa, False)))"

text \<open>One task, entered through the user interface and still selected.\<close>

definition oneTask :: state where
  "oneTask = run [ClickAddTodo, EditEnter ''x''] initialState"

text \<open>
  A task, 50 toggles of its checkbox with the space key, which fill the undo stack.
\<close>

definition fullHistory :: state where
  "fullHistory = run (ClickAddTodo # EditEnter ''x'' # replicate 50 KeySpace) initialState"

text \<open>The state \<^verbatim>\<open>addItem\<close> returns when it inserts the new item at index \<open>k\<close>.\<close>

definition created :: "item_type \<Rightarrow> int option \<Rightarrow> int \<Rightarrow> state \<Rightarrow> state" where
  "created ty ind k s =
     startEditing (nextId s) True
       (selectItem k
          ((save s)\<lparr>items := spliceArr (items s) k 0
                      [\<lparr> itemId = nextId s, itemType = ty, title = [],
                         indent = addIndent ty ind (save s), isChecked = False,
                         itemNote = [] \<rparr>],
                    nextId := Suc (nextId s)\<rparr>))"

text \<open>
  A child at the start of a section: a task of indent 1 at index 0 or right after a
  heading. The flag says whether the position looked at starts a section.
\<close>

fun childStartsSection :: "bool \<Rightarrow> item list \<Rightarrow> bool" where
  "childStartsSection sectionStart [] = False"
| "childStartsSection sectionStart (x # xs) =
     ((sectionStart \<and> itemType x = Todo \<and> indent x = 1)
      \<or> childStartsSection (itemType x = Heading) xs)"

text \<open>
  Two runs from the empty outline. In the first the subtask y of task x is archived on
  its own, x is deleted and y is restored. In the second the title of x is edited to
  the empty string, which deletes x alone.
\<close>

definition restoreOrphan :: "event list" where
  "restoreOrphan =
     [ClickAddTodo, EditEnter ''x'', KeyEnter True, EditEnter ''y'', KeyTab False,
      KeyArrowRight True, KeyDelete, ClickArchiveHeader, ClickArchivedItem 0,
      KeyArrowLeft True]"

definition emptiedParent :: "event list" where
  "emptiedParent =
     [ClickAddTodo, EditEnter ''x'', KeyEnter True, EditEnter ''y'', KeyTab False,
      DoubleClickItem 0, EditEnter '''']"

text \<open>
  Every archived item is checked, in the archive itself and in the archive of every
  snapshot on the undo and redo stacks (from where undo and redo bring it back).
\<close>

definition allChecked :: "item list \<Rightarrow> bool" where
  "allChecked l = list_all isChecked l"

definition archiveChecked :: "state \<Rightarrow> bool" where
  "archiveChecked s =
     (allChecked (archivedItems s)
      \<and> list_all (\<lambda>snap. allChecked (snapArchivedItems snap)) (history s)
      \<and> list_all (\<lambda>snap. allChecked (snapArchivedItems snap)) (future s))"

text \<open>A task entered through the user interface and archived.\<close>

definition archivedTask :: state where
  "archivedTask = run [ClickAddTodo, EditEnter ''x'', KeyArrowRight True] initialState"







text \<open>The lines the writer produces for an item, without their line feeds.\<close>

definition unlines :: "string list \<Rightarrow> string" where
  "unlines ls = concat (map (\<lambda>l. l @ [newline]) ls)"





text \<open>The item the reader builds from the lines of an item.\<close>

definition reparsed :: "bool \<Rightarrow> nat \<Rightarrow> item \<Rightarrow> item" where
  "reparsed archived k i =
     \<lparr> itemId = k, itemType = itemType i, title = title i,
       indent = (if itemType i = Heading then 0 else indent i),
       isChecked = (if itemType i = Heading then False else archived \<or> isChecked i),
       itemNote = (if length (trim (itemNote i)) > 0 then itemNote i else []) \<rparr>"

fun reparsedAll :: "bool \<Rightarrow> nat \<Rightarrow> item list \<Rightarrow> item list" where
  "reparsedAll archived k [] = []"
| "reparsedAll archived k (i # l) = reparsed archived k i # reparsedAll archived (Suc k) l"




section \<open>Verified properties\<close>

subsection \<open>Reading arrays\<close>

lemma at_Nil [simp]: "at [] i = None"
  by (simp add: at_def)

lemma at_Cons [simp]:
  "at (x # xs) i = (if i = 0 then Some x else if i < 0 then None else at xs (i - 1))"
  by (auto simp: at_def nth_Cons' nat_diff_distrib)

lemma findIndexFrom_range:
  "findIndexFrom p xs k = -1 \<or> (k \<le> findIndexFrom p xs k \<and> findIndexFrom p xs k < k + int (length xs))"
  by (induction xs arbitrary: k) (auto, force+)

lemma findIndex_range:
  "findIndex p xs = -1 \<or> (0 \<le> findIndex p xs \<and> findIndex p xs < int (length xs))"
  using findIndexFrom_range[of p xs 0] by (simp add: findIndex_def)

lemma countUntil_bounds:
  "0 \<le> countUntil stop its k" "0 \<le> k \<Longrightarrow> k + countUntil stop its k \<le> max k (int (length its))"
proof -
  show "0 \<le> countUntil stop its k" by (simp add: countUntil_def)
  assume "0 \<le> k"
  have "length (takeWhile (\<lambda>i. \<not> stop i) (drop (nat k) its)) \<le> length (drop (nat k) its)"
    by (rule length_takeWhile_le)
  then show "k + countUntil stop its k \<le> max k (int (length its))"
    using \<open>0 \<le> k\<close> by (auto simp: countUntil_def)
qed

lemma hasParentAboveFrom_total:
  "n \<le> length its \<Longrightarrow> \<exists>b. hasParentAboveFrom its n = Some b"
  by (induction n) (auto simp: at_def)

lemma adjustOrphanedIndent_total:
  assumes "0 \<le> p" and "p \<le> int (length its)"
  shows "\<exists>r. adjustOrphanedIndent xs its p = Some r"
proof -
  have "nat p \<le> length its" using assms by simp
  then obtain b where "hasParentAboveFrom its (nat p) = Some b"
    using hasParentAboveFrom_total by blast
  then show ?thesis
    by (auto simp: adjustOrphanedIndent_def hasParentAbove_def split: list.splits bool.splits)
qed

lemma not_Heading [simp]: "(t \<noteq> Heading) = (t = Todo)"
  by (cases t) auto

lemma spliceArr_insert:
  "0 \<le> p \<Longrightarrow> p \<le> int (length xs) \<Longrightarrow>
   spliceArr xs p 0 ys = take (nat p) xs @ ys @ drop (nat p) xs"
  by (auto simp: spliceArr_def relIndex_def Let_def min_def)

lemma at_update_same: "at xs i = Some x \<Longrightarrow> at (xs[nat i := y]) i = Some y"
  by (auto simp: at_def split: if_splits)

lemma at_update_other: "j \<noteq> i \<Longrightarrow> 0 \<le> i \<Longrightarrow> at (xs[nat i := y]) j = at xs j"
  by (auto simp: at_def split: if_splits)

subsection \<open>What the helpers leave alone\<close>

lemma selectItem_keeps [simp]:
  "history (selectItem i s) = history s" "future (selectItem i s) = future s"
  "items (selectItem i s) = items s" "archivedItems (selectItem i s) = archivedItems s"
  by (simp_all add: selectItem_def clear_def setSingle_def)

lemma moveMultipleItems_history:
  "history (moveMultipleItems dir s) = history s \<and> future (moveMultipleItems dir s) = future s"
  by (simp add: moveMultipleItems_def moveMultipleUp_def moveMultipleDown_def
        updateSelectionByIds_def Let_def split: option.splits prod.splits)

lemma moveSingleItem_history:
  "history (moveSingleItem dir s) = history s \<and> future (moveSingleItem dir s) = future s"
  by (simp add: moveSingleItem_def moveSingleUp_def moveSingleDown_def Let_def
        split: option.splits)

lemma save_pushes:
  assumes "\<not> isUndoingRedoing s"
  shows "history (save s) \<noteq> []" and "last (history (save s)) = current s"
    and "future (save s) = []"
  using assms by (cases "history s"; auto simp: save_def Let_def MAX_HISTORY_SIZE_def)+

lemma save_keeps [simp]:
  "items (save s) = items s" "archivedItems (save s) = archivedItems s"
  "selectedIndices (save s) = selectedIndices s" "activeIndex (save s) = activeIndex s"
  "isArchiveHidden (save s) = isArchiveHidden s"
  by (simp_all add: save_def Let_def)

lemma addActiveIfEmpty_keeps [simp]:
  "items (addActiveIfEmpty s) = items s" "archivedItems (addActiveIfEmpty s) = archivedItems s"
  "history (addActiveIfEmpty s) = history s" "future (addActiveIfEmpty s) = future s"
  "isUndoingRedoing (addActiveIfEmpty s) = isUndoingRedoing s"
  by (simp_all add: addActiveIfEmpty_def)

lemma addActiveIfEmpty_empty:
  "(selectedIndices (addActiveIfEmpty s) = []) = (selectedIndices s = [] \<and> activeIndex s < 0)"
  by (auto simp: addActiveIfEmpty_def setAdd_def)

lemma addActiveIfEmpty_id:
  "selectedIndices s = [] \<Longrightarrow> activeIndex s < 0 \<Longrightarrow> addActiveIfEmpty s = s"
  by (simp add: addActiveIfEmpty_def)

lemma save_more [simp]:
  "isUndoingRedoing (save s) = isUndoingRedoing s" "clipboard (save s) = clipboard s"
  "nextId (save s) = nextId s" "notifications (save s) = notifications s"
  by (simp_all add: save_def Let_def)

declare adjustCursorAfterDeletion.simps [simp del]

lemma findIndexFrom_append:
  "findIndexFrom p (xs @ ys) k =
     (if list_ex p xs then findIndexFrom p xs k else findIndexFrom p ys (k + int (length xs)))"
  by (induction xs arbitrary: k) (auto simp: algebra_simps)

lemma findIndex_inserted:
  assumes "p x" and "\<not> list_ex p xs" and "j \<le> length xs"
  shows "findIndex p (take j xs @ [x] @ drop j xs) = int j"
proof -
  have "\<not> list_ex p (take j xs)"
    using assms(2) by (auto simp: list_ex_iff dest: in_set_takeD)
  then show ?thesis using assms by (simp add: findIndex_def findIndexFrom_append)
qed

lemma relIndex_le: "relIndex xs k \<le> length xs"
  by (auto simp: relIndex_def)

lemma spliceArr_insert_one:
  "spliceArr xs k 0 [x] = take (relIndex xs k) xs @ [x] @ drop (relIndex xs k) xs"
  by (simp add: spliceArr_def Let_def)

lemma at_inserted: "j \<le> length xs \<Longrightarrow> at (take j xs @ [x] @ drop j xs) (int j) = Some x"
  by (simp add: at_def nth_append)

lemma spliceArr_remove_inserted:
  "j \<le> length xs \<Longrightarrow> spliceArr (take j xs @ [x] @ drop j xs) (int j) 1 [] = xs"
  by (simp add: spliceArr_def relIndex_def Let_def min_def)

lemma resetSelectionAfterDelete_keeps [simp]:
  "items (resetSelectionAfterDelete r d s) = items s"
  "archivedItems (resetSelectionAfterDelete r d s) = archivedItems s"
  "history (resetSelectionAfterDelete r d s) = history s"
  "future (resetSelectionAfterDelete r d s) = future s"
  "notifications (resetSelectionAfterDelete r d s) = notifications s"
  "editingId (resetSelectionAfterDelete r d s) = editingId s"
  "isNewItem (resetSelectionAfterDelete r d s) = isNewItem s"
  by (simp_all add: resetSelectionAfterDelete_def Let_def)

lemma selectItem_more [simp]:
  "notifications (selectItem i s) = notifications s" "editingId (selectItem i s) = editingId s"
  "isNewItem (selectItem i s) = isNewItem s"
  by (simp_all add: selectItem_def clear_def setSingle_def)

subsection \<open>The history law\<close>

lemma lastn_lastn_append: "lastn k (lastn k xs @ ys) = lastn k (xs @ ys)"
proof (cases "length xs \<le> k")
  case True
  then show ?thesis by (simp add: lastn_def)
next
  case False
  then have "length xs + length ys - (length xs - k + k) + (length xs - k)
             = length xs + length ys - k" by arith
  then show ?thesis by (simp add: lastn_def)
qed

lemma length_lastn: "length (lastn k xs) = min k (length xs)"
  by (simp add: lastn_def)

lemma history_save:
  assumes "\<not> isUndoingRedoing s" and "length (history s) \<le> MAX_HISTORY_SIZE"
  shows "history (save s) = lastn MAX_HISTORY_SIZE (history s @ [current s])"
proof (cases "length (history s) = MAX_HISTORY_SIZE")
  case True
  then have ne: "history s \<noteq> []" by (auto simp: MAX_HISTORY_SIZE_def)
  have "lastn MAX_HISTORY_SIZE (history s @ [current s]) = drop (Suc 0) (history s @ [current s])"
    by (simp add: lastn_def True)
  also have "\<dots> = tl (history s @ [current s])"
    by (simp only: drop_Suc drop_0)
  finally show ?thesis using assms True
    by (simp add: save_def Let_def)
next
  case False
  then show ?thesis using assms
    by (simp add: save_def lastn_def Let_def)
qed

text \<open>\<^verbatim>\<open>HistoryManager.save\<close> pushes exactly one snapshot, the state it is called in.\<close>

lemma save_pushesOne:
  assumes "\<not> isUndoingRedoing s" and "length (history s) \<le> MAX_HISTORY_SIZE"
    and "history t = history (save s)"
  shows "pushesOne s t" and "last (history t) = current s"
proof -
  have h: "history t = lastn MAX_HISTORY_SIZE (history s @ [current s])"
    using assms by (simp add: history_save)
  have "0 < MAX_HISTORY_SIZE" by (simp add: MAX_HISTORY_SIZE_def)
  then have ne: "history t \<noteq> []" and l: "last (history t) = current s"
    by (simp_all add: h lastn_def)
  show "last (history t) = current s" by (rule l)
  show "pushesOne s t" using h ne l by (simp add: pushesOne_def)
qed

lemma chain_history:
  "pushing (s # ss) \<Longrightarrow> length (history s) \<le> MAX_HISTORY_SIZE \<Longrightarrow>
   history (last (s # ss))
     = lastn MAX_HISTORY_SIZE (history s @ map (\<lambda>t. last (history t)) ss)"
proof (induction ss arbitrary: s)
  case Nil
  then show ?case by (simp add: lastn_def)
next
  case (Cons t ss)
  have ht: "history t = lastn MAX_HISTORY_SIZE (history s @ [last (history t)])"
    using Cons.prems by (simp add: pushesOne_def)
  have lt: "length (history t) \<le> MAX_HISTORY_SIZE"
    using length_lastn[of MAX_HISTORY_SIZE "history s @ [last (history t)]"] ht by simp
  have "history (last (t # ss))
        = lastn MAX_HISTORY_SIZE (history t @ map (\<lambda>t. last (history t)) ss)"
    using Cons.IH[of t] Cons.prems lt by simp
  also have "\<dots> = lastn MAX_HISTORY_SIZE
      (lastn MAX_HISTORY_SIZE (history s @ [last (history t)]) @ map (\<lambda>t. last (history t)) ss)"
    using ht by simp
  also have "\<dots> = lastn MAX_HISTORY_SIZE
      ((history s @ [last (history t)]) @ map (\<lambda>t. last (history t)) ss)"
    by (rule lastn_lastn_append)
  finally show ?case by simp
qed

lemma undo_step:
  assumes "\<not> isUndoingRedoing t" "history t \<noteq> []"
  shows "current (undo t) = last (history t)"
    and "history (undo t) = butlast (history t)"
    and "\<not> isUndoingRedoing (undo t)"
  using assms
  by (simp_all add: undo_def HistoryManager_undo_def Let_def current_def
        validateSelection_def showNotification_def)

lemma undo_empty: "history t = [] \<Longrightarrow> undo t = t"
  by (simp add: undo_def HistoryManager_undo_def)

lemma undo_iter:
  "\<not> isUndoingRedoing t \<Longrightarrow> k \<le> length (history t) \<Longrightarrow>
   history ((undo ^^ k) t) = take (length (history t) - k) (history t)
   \<and> \<not> isUndoingRedoing ((undo ^^ k) t)
   \<and> (0 < k \<longrightarrow> current ((undo ^^ k) t) = history t ! (length (history t) - k))"
proof (induction k arbitrary: t)
  case 0
  then show ?case by simp
next
  case (Suc k)
  have ne: "history t \<noteq> []" using Suc.prems by auto
  let ?u = "undo t"
  have hu: "history ?u = butlast (history t)" and iu: "\<not> isUndoingRedoing ?u"
    and cu: "current ?u = last (history t)"
    using undo_step[OF Suc.prems(1) ne] by simp_all
  have k: "k \<le> length (history ?u)" using Suc.prems hu by simp
  note IH = Suc.IH[OF iu k]
  have f: "(undo ^^ Suc k) t = (undo ^^ k) ?u" by (simp add: funpow_swap1)
  show ?case
  proof (cases "k = 0")
    case True
    then show ?thesis using hu iu cu ne
      by (simp add: butlast_conv_take last_conv_nth)
  next
    case False
    then show ?thesis using IH hu Suc.prems ne unfolding f
      by (simp add: butlast_conv_take nth_butlast min_def)
  qed
qed

lemma undo_iter_empty: "history t = [] \<Longrightarrow> (undo ^^ k) t = t"
  by (induction k) (simp_all add: undo_empty)

lemma funpow_split: "m \<le> n \<Longrightarrow> (f ^^ n) x = (f ^^ (n - m)) ((f ^^ m) x)"
proof -
  assume "m \<le> n"
  then have "n = (n - m) + m" by simp
  then have "(f ^^ n) x = (f ^^ ((n - m) + m)) x" by simp
  then show ?thesis by (simp only: funpow_add comp_apply)
qed

text \<open>
  What \<open>N\<close> calls of \<^verbatim>\<open>undo()\<close> restore after a run of \<open>N\<close> operations that each push
  exactly one snapshot: for \<open>N\<close> up to 50 the snapshot that the first operation pushed,
  and for larger \<open>N\<close> the oldest snapshot that was not evicted, with an empty undo stack.
  The pair of lists before the first operation comes back when the first operation
  pushed the state it started from, as \<^verbatim>\<open>HistoryManager.save\<close> does.
\<close>

theorem undo_restores_first_snapshot:
  assumes "pushing (s # t # ss)" and "length (history s) \<le> MAX_HISTORY_SIZE"
    and "\<not> isUndoingRedoing (last (t # ss))"
  shows "(Suc (length ss) \<le> MAX_HISTORY_SIZE \<longrightarrow>
            current ((undo ^^ Suc (length ss)) (last (t # ss))) = last (history t))
       \<and> (Suc (length ss) \<le> MAX_HISTORY_SIZE \<and> last (history t) = current s \<longrightarrow>
            current ((undo ^^ Suc (length ss)) (last (t # ss))) = current s)
       \<and> (MAX_HISTORY_SIZE < Suc (length ss) \<longrightarrow>
            current ((undo ^^ Suc (length ss)) (last (t # ss)))
              = last (history ((t # ss) ! (Suc (length ss) - MAX_HISTORY_SIZE)))
            \<and> history ((undo ^^ Suc (length ss)) (last (t # ss))) = [])"
proof -
  define u where "u = last (t # ss)"
  define N where "N = Suc (length ss)"
  define snaps where "snaps = map (\<lambda>t. last (history t)) (t # ss)"
  define M where "M = MAX_HISTORY_SIZE"
  have ls: "length snaps = N" by (simp add: snaps_def N_def)
  have "history (last (s # t # ss)) = lastn M (history s @ snaps)"
    unfolding M_def snaps_def using assms(1,2) by (rule chain_history)
  then have hu: "history u = lastn M (history s @ snaps)" by (simp add: u_def)
  have iu: "\<not> isUndoingRedoing u" using assms(3) by (simp add: u_def)
  have hs: "length (history s) \<le> M" using assms(2) by (simp add: M_def)
  have Mpos: "0 < M" by (simp add: M_def MAX_HISTORY_SIZE_def)
  have Npos: "0 < N" by (simp add: N_def)
  have s0: "snaps ! 0 = last (history t)" by (simp add: snaps_def)
  have low: "current ((undo ^^ N) u) = last (history t)" if le: "N \<le> M"
  proof -
    have kl: "N \<le> length (history u)"
      using le ls by (simp add: hu length_lastn)
    have "current ((undo ^^ N) u) = history u ! (length (history u) - N)"
      using undo_iter[OF iu kl] Npos by simp
    also have "\<dots> = snaps ! 0"
      using le Npos ls by (simp add: hu lastn_def nth_append)
    finally show ?thesis using s0 by simp
  qed
  have high: "current ((undo ^^ N) u) = last (history ((t # ss) ! (N - M)))
              \<and> history ((undo ^^ N) u) = []" if gt: "M < N"
  proof -
    have hl: "length (history u) = M"
      using gt ls by (simp add: hu length_lastn)
    have split: "(undo ^^ N) u = (undo ^^ (N - M)) ((undo ^^ M) u)"
      using gt by (simp add: funpow_split)
    have a: "history ((undo ^^ M) u) = []"
      and c: "current ((undo ^^ M) u) = history u ! 0"
      using undo_iter[OF iu, of M] hl Mpos by simp_all
    have e: "(undo ^^ N) u = (undo ^^ M) u"
      unfolding split using undo_iter_empty[OF a] by simp
    have "history u ! 0 = snaps ! (N - M)"
      using gt ls hs by (simp add: hu lastn_def nth_append)
    also have "\<dots> = last (history ((t # ss) ! (N - M)))"
      using gt Mpos unfolding snaps_def N_def by (simp del: list.map)
    finally show ?thesis using c e a by simp
  qed
  show ?thesis using low high unfolding u_def N_def M_def by auto
qed

text \<open>
  The law at work: indent, outdent and delete of the second of two tasks each push the
  state they start from, and three calls of \<^verbatim>\<open>undo()\<close> bring the two tasks back.
\<close>

theorem undo_restores_three_edits:
  "pushing (twoTasks # threeEdits)
   \<and> last (history (hd threeEdits)) = current twoTasks
   \<and> current ((undo ^^ 3) (last threeEdits)) = current twoTasks"
proof -
  have h1: "pushing (twoTasks # hd threeEdits # tl threeEdits)" by code_simp
  have h2: "length (history twoTasks) \<le> MAX_HISTORY_SIZE" by code_simp
  have h3: "\<not> isUndoingRedoing (last (hd threeEdits # tl threeEdits))" by code_simp
  have h4: "Suc (length (tl threeEdits)) \<le> MAX_HISTORY_SIZE" by code_simp
  have h5: "last (history (hd threeEdits)) = current twoTasks" by code_simp
  have e: "hd threeEdits # tl threeEdits = threeEdits" by code_simp
  have n: "Suc (length (tl threeEdits)) = 3" by code_simp
  from undo_restores_first_snapshot[OF h1 h2 h3] h4 h5
  have "current ((undo ^^ Suc (length (tl threeEdits))) (last (hd threeEdits # tl threeEdits)))
        = current twoTasks" by blast
  then show ?thesis using h1 h5 unfolding e n by simp
qed

text \<open>
  Enter in the edit field of an existing task pushes exactly one snapshot, and the
  snapshot is not the state the operation started from.
\<close>

theorem enter_commit_pushes_one:
  "pushing [renaming, step (EditEnter ''y '') renaming]
   \<and> last (history (step (EditEnter ''y '') renaming)) \<noteq> current renaming
   \<and> pushing [renaming, step (EditEnter []) renaming]
   \<and> last (history (step (EditEnter []) renaming)) \<noteq> current renaming
   \<and> pushing [renaming, step (EditBlur ''y '') renaming]
   \<and> last (history (step (EditBlur ''y '') renaming)) = current renaming"
  by code_simp

text \<open>
  Claim C2 says that \<open>N\<close> calls of \<^verbatim>\<open>undo()\<close> after \<open>N\<close> operations that each push exactly
  one snapshot bring back the pair of lists from before the first operation. Enter in
  the edit field of an existing task is such an operation, and one call of \<^verbatim>\<open>undo()\<close>
  after it does not bring the lists back. The handler writes the text of the field into
  the task before \<^verbatim>\<open>stopEditing\<close> takes the snapshot, so the snapshot holds the text as
  typed: for the task x and the text \<open>y\<close> with a space behind it the commit renames the
  task to y and \<^verbatim>\<open>undo()\<close> gives a task with the untrimmed text; for the empty text the
  commit deletes the task and \<^verbatim>\<open>undo()\<close> gives a task without title. Leaving the field
  with the same texts pushes the list with the task x, which \<^verbatim>\<open>undo()\<close> brings back.
\<close>

theorem enter_commit_not_undone:
  "items renaming = [mkTodo 0 0 ''x''] \<and> archivedItems renaming = []
   \<and> editingId renaming = Some 0 \<and> \<not> isNewItem renaming
   \<and> history (step (EditEnter ''y '') renaming)
       = history renaming @ [\<lparr>snapItems = [mkTodo 0 0 ''y ''], snapArchivedItems = []\<rparr>]
   \<and> items (step (EditEnter ''y '') renaming) = [mkTodo 0 0 ''y'']
   \<and> items (undo (step (EditEnter ''y '') renaming)) = [mkTodo 0 0 ''y '']
   \<and> current (undo (step (EditEnter ''y '') renaming)) \<noteq> current renaming
   \<and> history (step (EditEnter []) renaming)
       = history renaming @ [\<lparr>snapItems = [mkTodo 0 0 []], snapArchivedItems = []\<rparr>]
   \<and> items (step (EditEnter []) renaming) = []
   \<and> items (undo (step (EditEnter []) renaming)) = [mkTodo 0 0 []]
   \<and> current (undo (step (EditEnter []) renaming)) \<noteq> current renaming
   \<and> history (step (EditBlur ''y '') renaming) = history renaming @ [current renaming]
   \<and> items (step (EditBlur ''y '') renaming) = [mkTodo 0 0 ''y'']
   \<and> current (undo (step (EditBlur ''y '') renaming)) = current renaming
   \<and> history (step (EditBlur []) renaming) = history renaming @ [current renaming]
   \<and> items (step (EditBlur []) renaming) = []
   \<and> current (undo (step (EditBlur []) renaming)) = current renaming"
  by code_simp

subsection \<open>The archive scenario\<close>

text \<open>
  Claim C3. With the active list [heading, task of indent 0, task of indent 1] and the
  task of indent 0 selected, Archive leaves the heading alone in the active list and puts
  the task and its subtask, both checked and in that order, in front of what the archive
  held before.
\<close>

theorem archive_scenario:
  assumes "items s = [h, x, y]"
    and "itemType h = Heading"
    and "itemType x = Todo" and "indent x = 0"
    and "itemType y = Todo" and "indent y = 1"
    and "itemId h \<noteq> itemId x"
    and "selectedIndices s = [1]"
  shows "items (moveToArchive s) = [h]
       \<and> archivedItems (moveToArchive s)
           = [x\<lparr>isChecked := True\<rparr>, y\<lparr>isChecked := True\<rparr>] @ archivedItems s"
  using assms
  by (simp add: moveToArchive_def addActiveIfEmpty_def saveState_def save_def Let_def
        collectItemsToProcess_def sortAsc_def isParentSelected_def INDENT_CHILD_def
        INDENT_PARENT_def findIndex_def archiveStep_def getItemWithChildren_def blockCount_def
        countUntil_def endsChildren_def slice_def relIndex_def spliceArr_def minOfSet_def
        deletedTypeOf_def showNotification_def split: prod.splits)

theorem archive_scenario_witness:
  "items archiveScenario = [mkHeading 1 ''A'', mkTodo 2 0 ''x'', mkTodo 3 1 ''y'']
   \<and> selectedIndices archiveScenario = [1]
   \<and> items (moveToArchive archiveScenario) = [mkHeading 1 ''A'']
   \<and> archivedItems (moveToArchive archiveScenario)
       = [(mkTodo 2 0 ''x'')\<lparr>isChecked := True\<rparr>, (mkTodo 3 1 ''y'')\<lparr>isChecked := True\<rparr>,
          (mkTodo 9 0 ''old'')\<lparr>isChecked := True\<rparr>]"
  using archive_scenario [of archiveScenario "mkHeading 1 ''A''" "mkTodo 2 0 ''x''"
      "mkTodo 3 1 ''y''"]
  by (simp add: archiveScenario_def initialState_def mkHeading_def mkTodo_def)

subsection \<open>Paste\<close>

lemma children_counted:
  assumes "indentsInRange its" and "0 \<le> a"
  shows "countUntil endsChildren its (a + 1) = int (length (childrenOf its (nat a)))"
proof -
  have "\<forall>x\<in>set (drop (Suc (nat a)) its). (\<not> endsChildren x) = isChildTask x"
  proof
    fix x assume "x \<in> set (drop (Suc (nat a)) its)"
    then have "x \<in> set its" by (rule in_set_dropD)
    then have "indent x = 0 \<or> indent x = 1"
      using assms(1) by (simp add: indentsInRange_def list_all_iff)
    then show "(\<not> endsChildren x) = isChildTask x"
      by (auto simp: endsChildren_def isChildTask_def INDENT_PARENT_def)
  qed
  then have "takeWhile (\<lambda>x. \<not> endsChildren x) (drop (Suc (nat a)) its)
             = takeWhile isChildTask (drop (Suc (nat a)) its)"
    by (intro takeWhile_cong) simp_all
  moreover have "nat (a + 1) = Suc (nat a)" using assms(2) by simp
  ultimately show ?thesis by (simp add: countUntil_def childrenOf_def)
qed

lemma findIndexFrom_takeWhile:
  "findIndexFrom p xs k
   = (if list_ex p xs then k + int (length (takeWhile (\<lambda>x. \<not> p x) xs)) else -1)"
  by (induction xs arbitrary: k) simp_all

lemma sentinel_found:
  "findArchiveIndex its
   = (if list_ex isSentinel its then int (length (beforeSentinel its)) else -1)"
proof -
  have "isArchive = isSentinel" by (rule ext) (simp add: isArchive_def isSentinel_def)
  then show ?thesis
    by (simp add: findArchiveIndex_def findIndex_def findIndexFrom_takeWhile beforeSentinel_def)
qed

lemma beforeSentinel_free: "n \<le> length (beforeSentinel its) \<Longrightarrow> \<not> list_ex isSentinel (take n its)"
proof -
  assume n: "n \<le> length (beforeSentinel its)"
  have "take n its = take n (beforeSentinel its @ dropWhile (\<lambda>x. \<not> isSentinel x) its)"
    by (simp add: beforeSentinel_def)
  also have "\<dots> = take n (beforeSentinel its)" using n by simp
  finally have "set (take n its) \<subseteq> set (beforeSentinel its)" by (simp add: set_take_subset)
  moreover have "\<forall>x\<in>set (beforeSentinel its). \<not> isSentinel x"
    by (auto simp: beforeSentinel_def dest: set_takeWhileD)
  ultimately show ?thesis by (auto simp: list_ex_iff)
qed

lemma beforeSentinel_all:
  "\<not> list_ex isSentinel its \<Longrightarrow> beforeSentinel its = its"
  by (simp add: beforeSentinel_def list_ex_iff)

lemma pasteTarget_range:
  assumes "a < int (length its)"
  shows "pasteTarget its a \<le> length its"
    and "\<not> list_ex isSentinel (take (pasteTarget its a) its)"
proof -
  define wanted where "wanted =
     (if a < 0 then length its
      else if isParentTask (its ! nat a)
      then Suc (nat a) + length (childrenOf its (nat a))
      else Suc (nat a))"
  have "length (childrenOf its (nat a)) \<le> length (drop (Suc (nat a)) its)"
    unfolding childrenOf_def by (rule length_takeWhile_le)
  then have w: "wanted \<le> length its" using assms by (auto simp: wanted_def)
  have b: "length (beforeSentinel its) \<le> length its"
    unfolding beforeSentinel_def by (rule length_takeWhile_le)
  have t: "pasteTarget its a =
        (if list_ex isSentinel its \<and> wanted > length (beforeSentinel its)
         then length (beforeSentinel its) else wanted)"
    by (simp add: pasteTarget_def wanted_def Let_def)
  show "pasteTarget its a \<le> length its" using w b by (simp add: t)
  have "pasteTarget its a \<le> length (beforeSentinel its)"
    using w by (auto simp: t beforeSentinel_all)
  then show "\<not> list_ex isSentinel (take (pasteTarget its a) its)"
    by (rule beforeSentinel_free)
qed

lemma paste_insertIndex:
  assumes "activeIndex s < int (length (items s))" and "indentsInRange (items s)"
  shows "(let i0 = (if activeIndex s \<ge> 0 then
                     (case at (items s) (activeIndex s) of
                        None \<Rightarrow> None
                      | Some activeItem \<Rightarrow>
                          if indent activeItem = INDENT_PARENT
                          then Some (activeIndex s + 1 + getChildCount (items s) (activeIndex s))
                          else Some (activeIndex s + 1))
                   else Some (int (length (items s))))
          in map_option (\<lambda>i1. if findArchiveIndex (items s) \<noteq> -1 \<and> i1 > findArchiveIndex (items s)
                               then findArchiveIndex (items s) else i1) i0)
         = Some (int (pasteTarget (items s) (activeIndex s)))"
proof (cases "activeIndex s < 0")
  case True
  then show ?thesis
    by (simp add: pasteTarget_def Let_def sentinel_found)
next
  case False
  then have a: "0 \<le> activeIndex s" by simp
  then have at: "at (items s) (activeIndex s) = Some (items s ! nat (activeIndex s))"
    using assms(1) by (simp add: at_def)
  have c: "getChildCount (items s) (activeIndex s)
           = (if isParentTask (items s ! nat (activeIndex s))
              then int (length (childrenOf (items s) (nat (activeIndex s)))) else 0)"
    using children_counted[OF assms(2) a]
    by (auto simp: getChildCount_def at isParentTask_def INDENT_PARENT_def)
  show ?thesis
    using a by (auto simp: at c pasteTarget_def Let_def sentinel_found isParentTask_def
        INDENT_PARENT_def)
qed

lemma deepCopyNewIds_clones: "deepCopyNewIds cb fresh = clonesFrom fresh cb"
proof (induction cb arbitrary: fresh)
  case Nil
  then show ?case by (simp add: deepCopyNewIds_def)
next
  case (Cons x xs)
  have "[fresh ..< fresh + Suc (length xs)] = fresh # [Suc fresh ..< fresh + Suc (length xs)]"
    by (rule upt_conv_Cons) simp
  then have "[fresh ..< fresh + length (x # xs)] = fresh # [Suc fresh ..< Suc fresh + length xs]"
    by simp
  then show ?case using Cons.IH[of "Suc fresh"] by (simp add: deepCopyNewIds_def)
qed

lemma owner_found:
  assumes "indentsInRange its"
  shows "n \<le> length its \<Longrightarrow> hasParentAboveFrom its n = Some (hasOwner its n)"
proof (induction n)
  case 0
  then show ?case by (simp add: hasOwner_def)
next
  case (Suc n)
  define x where "x = its ! n"
  have n: "n < length its" using Suc.prems by simp
  then have at: "at its (int n) = Some x" by (simp add: at_def x_def)
  have above: "rev (take (Suc n) its) = x # rev (take n its)"
    using n by (simp add: take_Suc_conv_app_nth x_def)
  have "x \<in> set its" using n by (simp add: x_def)
  then have range: "indent x = 0 \<or> indent x = 1"
    using assms by (simp add: indentsInRange_def list_all_iff)
  have IH: "hasParentAboveFrom its n = Some (hasOwner its n)" using Suc by simp
  show ?case
  proof (cases "isChildTask x")
    case True
    then have "hasOwner its (Suc n) = hasOwner its n"
      by (simp add: hasOwner_def above)
    moreover have "hasParentAboveFrom its (Suc n) = hasParentAboveFrom its n"
      using True by (simp add: at isChildTask_def INDENT_PARENT_def)
    ultimately show ?thesis using IH by simp
  next
    case False
    then have "hasOwner its (Suc n) = isParentTask x"
      by (simp add: hasOwner_def above)
    moreover have "hasParentAboveFrom its (Suc n) = Some (isParentTask x)"
      using False range
      by (cases "itemType x") (auto simp: at isChildTask_def isParentTask_def INDENT_PARENT_def)
    ultimately show ?thesis by simp
  qed
qed

lemma adjusted_clones:
  assumes "indentsInRange its" and "pos \<le> length its"
  shows "adjustOrphanedIndent (deepCopyNewIds cb fresh) its (int pos)
         = Some (pastedItems cb fresh its pos)"
proof (cases "clonesFrom fresh cb")
  case Nil
  then show ?thesis
    by (simp add: adjustOrphanedIndent_def deepCopyNewIds_clones pastedItems_def)
next
  case (Cons c cs)
  have o: "hasParentAbove its (int pos) = Some (hasOwner its pos)"
    using owner_found[OF assms] by (simp add: hasParentAbove_def)
  have z: "pos = 0 \<Longrightarrow> \<not> hasOwner its pos" by (simp add: hasOwner_def)
  show ?thesis
    using z by (auto simp: adjustOrphanedIndent_def deepCopyNewIds_clones pastedItems_def Cons o
        INDENT_CHILD_def INDENT_PARENT_def)
qed

text \<open>
  Claim C6. Paste inserts the clones of the clipboard, with new identifiers, behind the
  block of an active parent (the parent and the tasks of indent 1 that follow it),
  right behind any other active item, and at the end of the list when no item is
  active; when that position lies behind the Archive heading the clones go in front of
  that heading, so no Archive heading comes before them. The active index is one of the
  list and the indents are 0 or 1.
\<close>

theorem paste_position:
  assumes "clipboard s \<noteq> []" and "activeIndex s < int (length (items s))"
    and "indentsInRange (items s)"
  shows "items (pasteItems s)
           = take (pasteTarget (items s) (activeIndex s)) (items s)
             @ pastedItems (clipboard s) (nextId s) (items s)
                 (pasteTarget (items s) (activeIndex s))
             @ drop (pasteTarget (items s) (activeIndex s)) (items s)
         \<and> pasteTarget (items s) (activeIndex s) \<le> length (items s)
         \<and> \<not> list_ex isSentinel (take (pasteTarget (items s) (activeIndex s)) (items s))"
proof -
  define pos where "pos = pasteTarget (items s) (activeIndex s)"
  define pasted where "pasted = pastedItems (clipboard s) (nextId s) (items s) pos"
  note r = pasteTarget_range[OF assms(2), folded pos_def]
  have p: "adjustOrphanedIndent (deepCopyNewIds (clipboard s) (nextId s))
      (items s) (int pos) = Some pasted"
    unfolding pasted_def using assms(3) r(1) by (rule adjusted_clones)
  have sv: "items (saveState s) = items s" "clipboard (saveState s) = clipboard s"
    "nextId (saveState s) = nextId s" "activeIndex (saveState s) = activeIndex s"
    by (simp_all add: saveState_def save_def Let_def)
  have "items (pasteItems s) = spliceArr (items s) (int pos) 0 pasted"
    using assms(1) p paste_insertIndex[OF assms(2,3), folded pos_def] sv
    by (auto simp: pasteItems_def Let_def selectItem_def clear_def setSingle_def
          showNotification_def selectRange_def split: option.splits if_splits)
  then have "items (pasteItems s) = take pos (items s) @ pasted @ drop pos (items s)"
    using r(1) spliceArr_insert[of "int pos" "items s" pasted] by simp
  then show ?thesis using r unfolding pos_def pasted_def by blast
qed

theorem paste_position_witness:
  "(clipboard pasteFamily \<noteq> [] \<and> activeIndex pasteFamily < int (length (items pasteFamily))
    \<and> indentsInRange (items pasteFamily)
    \<and> pasteTarget (items pasteFamily) (activeIndex pasteFamily) = 3
    \<and> pastedItems (clipboard pasteFamily) (nextId pasteFamily) (items pasteFamily) 3
        = [mkTodo 10 1 ''X'']
    \<and> items (pasteItems pasteFamily)
        = [mkTodo 1 0 ''p'', mkTodo 2 1 ''c1'', mkTodo 3 1 ''c2'', mkTodo 10 1 ''X'',
           mkTodo 4 0 ''q''])
   \<and> (clipboard pasteBehindArchive \<noteq> []
    \<and> activeIndex pasteBehindArchive < int (length (items pasteBehindArchive))
    \<and> indentsInRange (items pasteBehindArchive)
    \<and> pasteTarget (items pasteBehindArchive) (activeIndex pasteBehindArchive) = 1
    \<and> items (pasteItems pasteBehindArchive)
        = [mkTodo 1 0 ''p'', mkTodo 10 0 ''X'', mkHeading 2 ''Archive'', mkTodo 3 0 ''old''])
   \<and> (clipboard pasteOrphan \<noteq> [] \<and> activeIndex pasteOrphan < int (length (items pasteOrphan))
    \<and> indentsInRange (items pasteOrphan)
    \<and> pasteTarget (items pasteOrphan) (activeIndex pasteOrphan) = 1
    \<and> items (pasteItems pasteOrphan) = [mkHeading 1 ''H'', mkTodo 10 0 ''X''])
   \<and> (clipboard pasteScenario = [mkTodo 2 0 ''X''] \<and> items pasteScenario = [mkHeading 1 ''H'']
    \<and> activeIndex pasteScenario = -1
    \<and> indentsInRange (items pasteScenario)
    \<and> pasteTarget (items pasteScenario) (activeIndex pasteScenario) = 1
    \<and> items (pasteItems pasteScenario) = [mkHeading 1 ''H'', mkTodo 10 0 ''X''])"
proof -
  have f1: "clipboard pasteFamily \<noteq> []" by code_simp
  have f2: "activeIndex pasteFamily < int (length (items pasteFamily))" by code_simp
  have f3: "indentsInRange (items pasteFamily)" by code_simp
  have f4: "pasteTarget (items pasteFamily) (activeIndex pasteFamily) = 3" by code_simp
  have f5: "pastedItems (clipboard pasteFamily) (nextId pasteFamily) (items pasteFamily) 3
        = [mkTodo 10 1 ''X'']" by code_simp
  have f6: "take 3 (items pasteFamily) @ [mkTodo 10 1 ''X''] @ drop 3 (items pasteFamily)
        = [mkTodo 1 0 ''p'', mkTodo 2 1 ''c1'', mkTodo 3 1 ''c2'', mkTodo 10 1 ''X'',
           mkTodo 4 0 ''q'']" by code_simp
  have a1: "clipboard pasteBehindArchive \<noteq> []" by code_simp
  have a2: "activeIndex pasteBehindArchive < int (length (items pasteBehindArchive))"
    by code_simp
  have a3: "indentsInRange (items pasteBehindArchive)" by code_simp
  have a4: "pasteTarget (items pasteBehindArchive) (activeIndex pasteBehindArchive) = 1"
    by code_simp
  have a5: "take 1 (items pasteBehindArchive)
        @ pastedItems (clipboard pasteBehindArchive) (nextId pasteBehindArchive)
            (items pasteBehindArchive) 1
        @ drop 1 (items pasteBehindArchive)
        = [mkTodo 1 0 ''p'', mkTodo 10 0 ''X'', mkHeading 2 ''Archive'', mkTodo 3 0 ''old'']"
    by code_simp
  have o1: "clipboard pasteOrphan \<noteq> []" by code_simp
  have o2: "activeIndex pasteOrphan < int (length (items pasteOrphan))" by code_simp
  have o3: "indentsInRange (items pasteOrphan)" by code_simp
  have o4: "pasteTarget (items pasteOrphan) (activeIndex pasteOrphan) = 1" by code_simp
  have o5: "take 1 (items pasteOrphan)
        @ pastedItems (clipboard pasteOrphan) (nextId pasteOrphan) (items pasteOrphan) 1
        @ drop 1 (items pasteOrphan)
        = [mkHeading 1 ''H'', mkTodo 10 0 ''X'']" by code_simp
  have s1: "clipboard pasteScenario = [mkTodo 2 0 ''X'']" by code_simp
  have s1': "clipboard pasteScenario \<noteq> []" by code_simp
  have s2: "items pasteScenario = [mkHeading 1 ''H'']" by code_simp
  have s3: "activeIndex pasteScenario = -1" by code_simp
  have s3': "activeIndex pasteScenario < int (length (items pasteScenario))" by code_simp
  have s4: "indentsInRange (items pasteScenario)" by code_simp
  have s5: "pasteTarget (items pasteScenario) (activeIndex pasteScenario) = 1" by code_simp
  have s6: "take 1 (items pasteScenario)
        @ pastedItems (clipboard pasteScenario) (nextId pasteScenario) (items pasteScenario) 1
        @ drop 1 (items pasteScenario)
        = [mkHeading 1 ''H'', mkTodo 10 0 ''X'']" by code_simp
  from paste_position[OF f1 f2 f3]
  have f: "items (pasteItems pasteFamily)
        = [mkTodo 1 0 ''p'', mkTodo 2 1 ''c1'', mkTodo 3 1 ''c2'', mkTodo 10 1 ''X'',
           mkTodo 4 0 ''q'']"
    unfolding f4 f5 f6 by blast
  from paste_position[OF a1 a2 a3]
  have a: "items (pasteItems pasteBehindArchive)
        = [mkTodo 1 0 ''p'', mkTodo 10 0 ''X'', mkHeading 2 ''Archive'', mkTodo 3 0 ''old'']"
    unfolding a4 a5 by blast
  from paste_position[OF o1 o2 o3]
  have o: "items (pasteItems pasteOrphan) = [mkHeading 1 ''H'', mkTodo 10 0 ''X'']"
    unfolding o4 o5 by blast
  from paste_position[OF s1' s3' s4]
  have s: "items (pasteItems pasteScenario) = [mkHeading 1 ''H'', mkTodo 10 0 ''X'']"
    unfolding s5 s6 by blast
  show ?thesis using f1 f2 f3 f4 f5 f a1 a2 a3 a4 a o1 o2 o3 o4 o s1 s2 s3 s4 s5 s by blast
qed

subsection \<open>Indent and outdent\<close>

text \<open>
  Claim C8. With a single item selected, Indent(+1) followed by Indent(-1) restores the
  indent of the item (and the whole list), provided the Indent(+1) met its
  precondition: the item is no heading, its new indent lies in [0,1], it is not at
  index 0 and the item before it is no heading. The item's indent is 0 or 1, as the
  data model has it. The same holds for the two Tab keys that trigger the operations.
\<close>

theorem indent_then_outdent:
  assumes "selectedIndices s = [i]"
    and "at (items s) i = Some item"
    and "indent item \<in> {0, 1}"
    and "itemType item \<noteq> Heading"
    and "0 \<le> indent item + 1" and "indent item + 1 \<le> 1"
    and "i \<noteq> 0"
    and "at (items s) (i - 1) = Some prev" and "itemType prev \<noteq> Heading"
  shows "map_option indent (at (items (changeIndent 1 s)) i) = Some (indent item + 1)
       \<and> map_option indent (at (items (changeIndent (-1) (changeIndent 1 s))) i)
           = Some (indent item)
       \<and> items (changeIndent (-1) (changeIndent 1 s)) = items s
       \<and> (\<not> isArchiveActive s
            \<longrightarrow> items (handleTab True (handleTab False s)) = items s)"
proof -
  have i0: "0 < i" using assms(2,7) by (auto simp: at_def split: if_splits)
  have ind: "indent item = 0" using assms(3,6) by auto
  let ?its1 = "(items s)[nat i := item\<lparr>indent := 1\<rparr>]"
  have s1: "items (changeIndent 1 s) = ?its1"
    using assms ind
    by (simp add: changeIndent_def sortAsc_def canChangeIndent_def INDENT_PARENT_def
          INDENT_MAX_def)
  have sel1: "selectedIndices (changeIndent 1 s) = [i]"
    using assms(1) by (simp add: changeIndent_def)
  have a1: "at ?its1 i = Some (item\<lparr>indent := 1\<rparr>)"
    using assms(2) by (rule at_update_same)
  have s2: "items (changeIndent (-1) (changeIndent 1 s)) = ?its1[nat i := item\<lparr>indent := 0\<rparr>]"
    using assms(4) a1 sel1 s1
    by (simp add: changeIndent_def sortAsc_def canChangeIndent_def INDENT_PARENT_def
          INDENT_MAX_def)
  have restored: "?its1[nat i := item\<lparr>indent := 0\<rparr>] = items s"
    using assms(2) ind by (auto simp: at_def list_update_same_conv split: if_splits)
  have tab: "items (handleTab True (handleTab False s))
               = items (changeIndent (-1) (changeIndent 1 s))"
    if "\<not> isArchiveActive s"
    using that assms(1)
    by (simp add: handleTab_def changeIndent_def saveState_def save_def Let_def)
  show ?thesis using s1 s2 restored a1 assms(2) ind tab by simp
qed

theorem indent_then_outdent_witness:
  "selectedIndices twoTasks = [1]
   \<and> at (items twoTasks) 1 = Some (mkTodo 1 0 ''y'')
   \<and> at (items twoTasks) 0 = Some (mkTodo 0 0 ''x'')
   \<and> map_option indent (at (items (changeIndent 1 twoTasks)) 1) = Some 1
   \<and> items (changeIndent (-1) (changeIndent 1 twoTasks)) = items twoTasks"
proof -
  have h1: "selectedIndices twoTasks = [1]" by code_simp
  have h2: "at (items twoTasks) 1 = Some (mkTodo 1 0 ''y'')" by code_simp
  have h3: "indent (mkTodo 1 0 ''y'') \<in> {0, 1}" by (simp add: mkTodo_def)
  have h4: "itemType (mkTodo 1 0 ''y'') \<noteq> Heading" by (simp add: mkTodo_def)
  have h5: "0 \<le> indent (mkTodo 1 0 ''y'') + 1" by (simp add: mkTodo_def)
  have h6: "indent (mkTodo 1 0 ''y'') + 1 \<le> 1" by (simp add: mkTodo_def)
  have h7: "(1::int) \<noteq> 0" by simp
  have h8: "at (items twoTasks) (1 - 1) = Some (mkTodo 0 0 ''x'')" by code_simp
  have h9: "itemType (mkTodo 0 0 ''x'') \<noteq> Heading" by (simp add: mkTodo_def)
  have i: "indent (mkTodo 1 0 ''y'') + 1 = 1" by (simp add: mkTodo_def)
  from indent_then_outdent[OF h1 h2 h3 h4 h5 h6 h7 h8 h9] h1 h2 h8 i
  show ?thesis by simp
qed

subsection \<open>Move and the undo stack\<close>

text \<open>
  Claim C10. Once Move has passed its two guards (an item is active, and it is not the
  Archive heading), it takes its snapshot before any rejection check: the undo stack is
  the one \<^verbatim>\<open>save\<close> leaves, its newest entry is the state before the move, and the redo
  stack is empty. This also holds when the move is rejected and the list stays as it
  is: a block at the top or at the bottom, a multi-selection that is not contiguous
  once expanded, or a topmost child selected together with a parent.
\<close>

theorem move_snapshot:
  assumes "0 \<le> activeIndex s"
    and "\<not> isArchiveHeading (at (items s) (activeIndex s))"
    and "\<not> isUndoingRedoing s"
  shows "history (moveItem dir s) = history (save s)
       \<and> history (moveItem dir s) \<noteq> []
       \<and> last (history (moveItem dir s)) = current s
       \<and> future (moveItem dir s) = []
       \<and> (length (selectedIndices s) \<le> 1 \<and> activeIndex s = 0
            \<longrightarrow> items (moveItem Up s) = items s)
       \<and> (length (selectedIndices s) \<le> 1
            \<and> (\<exists>item. at (items s) (activeIndex s) = Some item
                  \<and> at (items s) (activeIndex s + blockCount (items s) item (activeIndex s))
                      = None)
            \<longrightarrow> items (moveItem Down s) = items s)
       \<and> (\<forall>final. 1 < length (selectedIndices s)
            \<and> expandSelectionWithChildren (sortAsc (selectedIndices s)) (items s) = Some final
            \<and> \<not> isContiguous final
            \<longrightarrow> items (moveItem dir s) = items s)
       \<and> (\<forall>final topItem. 1 < length (selectedIndices s)
            \<and> expandSelectionWithChildren (sortAsc (selectedIndices s)) (items s) = Some final
            \<and> at (items s) (hd final) = Some topItem \<and> indent topItem = INDENT_CHILD
            \<and> list_ex (\<lambda>idx. map_option indent (at (items s) idx) = Some INDENT_PARENT) final
            \<longrightarrow> items (moveItem dir s) = items s)"
proof -
  have h: "history (moveItem dir s) = history (save s)"
    and f: "future (moveItem dir s) = future (save s)"
    using assms(1,2) moveMultipleItems_history[of dir "save s"]
      moveSingleItem_history[of dir "save s"]
    by (simp_all add: moveItem_def saveState_def Let_def)
  have top: "items (moveItem Up s) = items s"
    if "length (selectedIndices s) \<le> 1" "activeIndex s = 0"
    using that assms(1,2)
    by (simp add: moveItem_def saveState_def Let_def moveSingleItem_def moveSingleUp_def
          split: option.splits)
  have bottom: "items (moveItem Down s) = items s"
    if "length (selectedIndices s) \<le> 1" "at (items s) (activeIndex s) = Some item"
      "at (items s) (activeIndex s + blockCount (items s) item (activeIndex s)) = None"
    for item
    using that assms(1,2)
    by (simp add: moveItem_def saveState_def Let_def moveSingleItem_def moveSingleDown_def
          split: option.splits)
  have gap: "items (moveItem dir s) = items s"
    if "1 < length (selectedIndices s)"
      "expandSelectionWithChildren (sortAsc (selectedIndices s)) (items s) = Some final"
      "\<not> isContiguous final"
    for final
    using that assms(1,2)
    by (simp add: moveItem_def saveState_def Let_def moveMultipleItems_def
          split: option.splits)
  have owner: "items (moveItem dir s) = items s"
    if "1 < length (selectedIndices s)"
      "expandSelectionWithChildren (sortAsc (selectedIndices s)) (items s) = Some final"
      "at (items s) (hd final) = Some topItem" "indent topItem = INDENT_CHILD"
      "list_ex (\<lambda>idx. map_option indent (at (items s) idx) = Some INDENT_PARENT) final"
    for final topItem
    using that assms(1,2)
    by (simp add: moveItem_def saveState_def Let_def moveMultipleItems_def
          split: option.splits)
  show ?thesis
    using h f save_pushes[OF assms(3)] top bottom gap owner by (simp; blast)
qed

theorem move_snapshot_witness:
  "0 \<le> activeIndex afterUndo
   \<and> \<not> isArchiveHeading (at (items afterUndo) (activeIndex afterUndo))
   \<and> \<not> isUndoingRedoing afterUndo
   \<and> length (selectedIndices afterUndo) \<le> 1 \<and> activeIndex afterUndo = 0
   \<and> future afterUndo \<noteq> []
   \<and> items (moveItem Up afterUndo) = items afterUndo
   \<and> last (history (moveItem Up afterUndo)) = current afterUndo
   \<and> length (history (moveItem Up afterUndo)) = Suc (length (history afterUndo))
   \<and> future (moveItem Up afterUndo) = []"
proof -
  have h1: "0 \<le> activeIndex afterUndo" by code_simp
  have h2: "\<not> isArchiveHeading (at (items afterUndo) (activeIndex afterUndo))" by code_simp
  have h3: "\<not> isUndoingRedoing afterUndo" by code_simp
  have h4: "length (selectedIndices afterUndo) \<le> 1 \<and> activeIndex afterUndo = 0" by code_simp
  have h5: "future afterUndo \<noteq> []" by code_simp
  have h6: "length (history (save afterUndo)) = Suc (length (history afterUndo))" by code_simp
  note m = move_snapshot[OF h1 h2 h3, of Up]
  have l: "last (history (moveItem Up afterUndo)) = current afterUndo" using m by blast
  have f: "future (moveItem Up afterUndo) = []" using m by blast
  have i: "items (moveItem Up afterUndo) = items afterUndo" using m h4 by blast
  have "history (moveItem Up afterUndo) = history (save afterUndo)" using m by blast
  then have n: "length (history (moveItem Up afterUndo)) = Suc (length (history afterUndo))"
    using h6 by simp
  show ?thesis using h1 h2 h3 h4 h5 l f i n by blast
qed

subsection \<open>Moves to a heading that move nothing\<close>

lemma nextHeadingStep_cases:
  "nextHeadingStep item acc = acc \<or> snd (nextHeadingStep item acc)"
  by (auto simp: nextHeadingStep_def Let_def split: option.splits)

lemma prevHeadingStep_cases:
  "prevHeadingStep item acc = acc \<or> snd (prevHeadingStep item acc)"
  by (auto simp: prevHeadingStep_def Let_def split: option.splits)

lemma nextHeadingStep_True: "snd acc \<Longrightarrow> snd (nextHeadingStep item acc)"
  by (auto simp: nextHeadingStep_def Let_def split: option.splits)

lemma prevHeadingStep_True: "snd acc \<Longrightarrow> snd (prevHeadingStep item acc)"
  by (auto simp: prevHeadingStep_def Let_def split: option.splits)

lemma nextHeadingLoop_True: "snd acc \<Longrightarrow> snd (nextHeadingLoop xs acc)"
  by (induction xs arbitrary: acc) (auto simp: nextHeadingStep_True)

lemma prevHeadingLoop_True: "snd acc \<Longrightarrow> snd (prevHeadingLoop xs acc)"
  by (induction xs arbitrary: acc) (auto simp: prevHeadingStep_True)

lemma nextHeadingLoop_unmoved: "\<not> snd (nextHeadingLoop xs acc) \<Longrightarrow> nextHeadingLoop xs acc = acc"
proof (induction xs arbitrary: acc)
  case Nil
  then show ?case by simp
next
  case (Cons x xs)
  have n: "\<not> snd (nextHeadingLoop xs (nextHeadingStep x acc))" using Cons.prems by simp
  then have l: "nextHeadingLoop xs (nextHeadingStep x acc) = nextHeadingStep x acc"
    by (rule Cons.IH)
  then have "\<not> snd (nextHeadingStep x acc)" using n by simp
  then have "nextHeadingStep x acc = acc" using nextHeadingStep_cases[of x acc] by blast
  then show ?case using l by simp
qed

lemma prevHeadingLoop_unmoved: "\<not> snd (prevHeadingLoop xs acc) \<Longrightarrow> prevHeadingLoop xs acc = acc"
proof (induction xs arbitrary: acc)
  case Nil
  then show ?case by simp
next
  case (Cons x xs)
  have n: "\<not> snd (prevHeadingLoop xs (prevHeadingStep x acc))" using Cons.prems by simp
  then have l: "prevHeadingLoop xs (prevHeadingStep x acc) = prevHeadingStep x acc"
    by (rule Cons.IH)
  then have "\<not> snd (prevHeadingStep x acc)" using n by simp
  then have "prevHeadingStep x acc = acc" using prevHeadingStep_cases[of x acc] by blast
  then show ?case using l by simp
qed

text \<open>
  Claim C5 says that a move to the next or the previous heading that moves nothing
  leaves no history entry. It does: with one task and no heading, both operations move
  nothing and both leave the undo stack changed.
\<close>

theorem heading_move_leaves_entry:
  "\<not> nextHeadingMoved oneTask \<and> \<not> prevHeadingMoved oneTask
   \<and> history (moveToNextHeading oneTask) \<noteq> history oneTask
   \<and> history (moveToPrevHeading oneTask) \<noteq> history oneTask"
  by code_simp

text \<open>
  Claim C5, amended. When MoveToNextHeading or MoveToPrevHeading moves no item, the
  two lists stay as they are. With nothing selected and no active item the operation
  does nothing at all. Otherwise the snapshot it took before looking at the items
  stays: the undo stack is the one \<^verbatim>\<open>save\<close> leaves, its newest entry is the unchanged
  state, and the redo stack is empty.
\<close>

theorem heading_move_unmoved:
  assumes "\<not> isUndoingRedoing s"
  shows "(\<not> nextHeadingMoved s \<longrightarrow>
            items (moveToNextHeading s) = items s
          \<and> archivedItems (moveToNextHeading s) = archivedItems s
          \<and> (selectedIndices s = [] \<and> activeIndex s < 0 \<longrightarrow> moveToNextHeading s = s)
          \<and> (\<not> (selectedIndices s = [] \<and> activeIndex s < 0) \<longrightarrow>
                history (moveToNextHeading s) = history (save s)
              \<and> last (history (moveToNextHeading s)) = current s
              \<and> future (moveToNextHeading s) = []))
       \<and> (\<not> prevHeadingMoved s \<longrightarrow>
            items (moveToPrevHeading s) = items s
          \<and> archivedItems (moveToPrevHeading s) = archivedItems s
          \<and> (selectedIndices s = [] \<and> activeIndex s < 0 \<longrightarrow> moveToPrevHeading s = s)
          \<and> (\<not> (selectedIndices s = [] \<and> activeIndex s < 0) \<longrightarrow>
                history (moveToPrevHeading s) = history (save s)
              \<and> last (history (moveToPrevHeading s)) = current s
              \<and> future (moveToPrevHeading s) = []))"
proof -
  let ?sa = "addActiveIfEmpty s"
  let ?xs = "rev (collectItemsToProcess (items s) (selectedIndices ?sa) True)"
  have sv: "history (save ?sa) = history (save s)" "future (save ?sa) = future (save s)"
    by (simp_all add: save_def Let_def current_def)
  have sel: "selectedIndices (save ?sa) = selectedIndices ?sa" by simp
  note p = save_pushes[OF assms]
  have nxt: "items (moveToNextHeading s) = items s
          \<and> archivedItems (moveToNextHeading s) = archivedItems s
          \<and> (selectedIndices s = [] \<and> activeIndex s < 0 \<longrightarrow> moveToNextHeading s = s)
          \<and> (\<not> (selectedIndices s = [] \<and> activeIndex s < 0) \<longrightarrow>
                history (moveToNextHeading s) = history (save s)
              \<and> last (history (moveToNextHeading s)) = current s
              \<and> future (moveToNextHeading s) = [])"
    if "\<not> nextHeadingMoved s"
  proof -
    have l: "nextHeadingLoop ?xs (items s, False) = (items s, False)"
      using that nextHeadingLoop_unmoved[of ?xs "(items s, False)"]
      by (simp add: nextHeadingMoved_def Let_def)
    show ?thesis
    proof (cases "selectedIndices s = [] \<and> activeIndex s < 0")
      case True
      then show ?thesis
        by (simp add: moveToNextHeading_def addActiveIfEmpty_id)
    next
      case False
      then have ne: "selectedIndices ?sa \<noteq> []" using addActiveIfEmpty_empty[of s] by blast
      have m: "moveToNextHeading s = (save ?sa)\<lparr>items := items s\<rparr>"
        using ne l sel by (simp add: moveToNextHeading_def Let_def saveState_def)
      show ?thesis using False sv p by (auto simp: m)
    qed
  qed
  have prv: "items (moveToPrevHeading s) = items s
          \<and> archivedItems (moveToPrevHeading s) = archivedItems s
          \<and> (selectedIndices s = [] \<and> activeIndex s < 0 \<longrightarrow> moveToPrevHeading s = s)
          \<and> (\<not> (selectedIndices s = [] \<and> activeIndex s < 0) \<longrightarrow>
                history (moveToPrevHeading s) = history (save s)
              \<and> last (history (moveToPrevHeading s)) = current s
              \<and> future (moveToPrevHeading s) = [])"
    if "\<not> prevHeadingMoved s"
  proof -
    have l: "prevHeadingLoop ?xs (items s, False) = (items s, False)"
      using that prevHeadingLoop_unmoved[of ?xs "(items s, False)"]
      by (simp add: prevHeadingMoved_def Let_def)
    show ?thesis
    proof (cases "selectedIndices s = [] \<and> activeIndex s < 0")
      case True
      then show ?thesis
        by (simp add: moveToPrevHeading_def addActiveIfEmpty_id)
    next
      case False
      then have ne: "selectedIndices ?sa \<noteq> []" using addActiveIfEmpty_empty[of s] by blast
      have m: "moveToPrevHeading s = (save ?sa)\<lparr>items := items s\<rparr>"
        using ne l sel by (simp add: moveToPrevHeading_def Let_def saveState_def)
      show ?thesis using False sv p by (auto simp: m)
    qed
  qed
  show ?thesis using nxt prv by blast
qed

theorem heading_move_unmoved_witness:
  "\<not> isUndoingRedoing oneTask \<and> \<not> nextHeadingMoved oneTask
   \<and> selectedIndices oneTask = [0]
   \<and> items (moveToNextHeading oneTask) = items oneTask
   \<and> last (history (moveToNextHeading oneTask)) = current oneTask
   \<and> length (history (moveToNextHeading oneTask)) = Suc (length (history oneTask))
   \<and> future (moveToNextHeading oneTask) = []"
proof -
  have h1: "\<not> isUndoingRedoing oneTask" by code_simp
  have h2: "\<not> nextHeadingMoved oneTask" by code_simp
  have h3: "selectedIndices oneTask = [0]" by code_simp
  have h4: "length (history (save oneTask)) = Suc (length (history oneTask))" by code_simp
  note m = heading_move_unmoved[OF h1]
  have a: "items (moveToNextHeading oneTask) = items oneTask" using m h2 by blast
  have ne: "\<not> (selectedIndices oneTask = [] \<and> activeIndex oneTask < 0)"
    using h3 by simp
  have b: "history (moveToNextHeading oneTask) = history (save oneTask)
         \<and> last (history (moveToNextHeading oneTask)) = current oneTask
         \<and> future (moveToNextHeading oneTask) = []"
    using m h2 ne by blast
  then have c: "length (history (moveToNextHeading oneTask)) = Suc (length (history oneTask))"
    using h4 by simp
  show ?thesis using h1 h2 h3 a b c by blast
qed

subsection \<open>A new item that is abandoned\<close>

lemma addItem_cases:
  "addItem ty ins ind s = save s \<or> (\<exists>k. addItem ty ins ind s = created ty ind k s)"
  by (simp add: addItem_def saveState_def created_def Let_def split: option.split) blast

lemma addItem_created:
  assumes "length (items (addItem ty ins ind s)) = Suc (length (items s))"
  shows "\<exists>k new. itemId new = nextId s
           \<and> items (addItem ty ins ind s) = spliceArr (items s) k 0 [new]
           \<and> editingId (addItem ty ins ind s) = Some (nextId s)
           \<and> isNewItem (addItem ty ins ind s)
           \<and> history (addItem ty ins ind s) = history (save s)
           \<and> future (addItem ty ins ind s) = future (save s)
           \<and> notifications (addItem ty ins ind s) = notifications s
           \<and> isUndoingRedoing (addItem ty ins ind s) = isUndoingRedoing s"
proof -
  have "addItem ty ins ind s \<noteq> save s" using assms by auto
  then obtain k where k: "addItem ty ins ind s = created ty ind k s"
    using addItem_cases by blast
  show ?thesis
    unfolding k
    by (intro exI[of _ k] exI[of _ "\<lparr> itemId = nextId s, itemType = ty, title = [],
             indent = addIndent ty ind (save s), isChecked = False, itemNote = [] \<rparr>"])
       (simp add: created_def startEditing_def selectItem_def clear_def setSingle_def)
qed

lemma popped_history:
  assumes "\<not> isUndoingRedoing s"
  shows "butlast (history (save s))
         = (if length (history s) < MAX_HISTORY_SIZE then history s else tl (history s))"
  using assms
  by (cases "history s") (auto simp: save_def Let_def MAX_HISTORY_SIZE_def butlast_append)

text \<open>
  Claim C9 says that a new item committed with an empty title leaves the items and the
  undo stack as they were before the creation. With 50 entries on the undo stack the
  creation evicts the oldest one, and \<^verbatim>\<open>popLast\<close> does not bring it back.
\<close>

theorem abandoned_item_counterexample:
  "length (items (run [ClickAddTodo] fullHistory)) = Suc (length (items fullHistory))
   \<and> history (run [ClickAddTodo, EditEnter ''''] fullHistory) \<noteq> history fullHistory"
  by code_simp

text \<open>
  Claim C9, amended. When \<^verbatim>\<open>addItem\<close> has inserted an item (with a fresh identifier)
  and the edit is committed with a title that is empty after trimming, the items are
  those from before the creation, no notification is shown and the edit session is
  idle. The undo stack is the one from before the creation when it held fewer than 50
  entries; at the cap it has lost its oldest entry. The redo stack is empty.
\<close>

theorem abandoned_item:
  assumes "\<not> isUndoingRedoing s"
    and "\<not> list_ex (\<lambda>i. itemId i = nextId s) (items s)"
    and "length (items (addItem ty ins ind s)) = Suc (length (items s))"
    and "trim v = []"
  shows "items (stopEditing True (Some v) (addItem ty ins ind s)) = items s
       \<and> (length (history s) < MAX_HISTORY_SIZE
            \<longrightarrow> history (stopEditing True (Some v) (addItem ty ins ind s)) = history s)
       \<and> (MAX_HISTORY_SIZE \<le> length (history s)
            \<longrightarrow> history (stopEditing True (Some v) (addItem ty ins ind s)) = tl (history s))
       \<and> future (stopEditing True (Some v) (addItem ty ins ind s)) = []
       \<and> notifications (stopEditing True (Some v) (addItem ty ins ind s)) = notifications s
       \<and> editingId (stopEditing True (Some v) (addItem ty ins ind s)) = None
       \<and> \<not> isNewItem (stopEditing True (Some v) (addItem ty ins ind s))"
proof -
  let ?a = "addItem ty ins ind s"
  obtain k new where n: "itemId new = nextId s"
    and ia: "items ?a = spliceArr (items s) k 0 [new]"
    and ea: "editingId ?a = Some (nextId s)" and na: "isNewItem ?a"
    and ha: "history ?a = history (save s)" and fa: "future ?a = future (save s)"
    and oa: "notifications ?a = notifications s"
    and ua: "isUndoingRedoing ?a = isUndoingRedoing s"
    using addItem_created[OF assms(3)] by blast
  define j where "j = relIndex (items s) k"
  have jl: "j \<le> length (items s)" by (simp add: j_def relIndex_le)
  have ia': "items ?a = take j (items s) @ [new] @ drop j (items s)"
    by (simp add: ia j_def spliceArr_insert_one)
  have fi: "findIndex (\<lambda>i. itemId i = nextId s) (items ?a) = int j"
    unfolding ia' using n assms(2) jl by (intro findIndex_inserted) simp_all
  have at: "at (items ?a) (int j) = Some new"
    unfolding ia' using jl by (rule at_inserted)
  have rm: "spliceArr (items ?a) (int j) 1 [] = items s"
    unfolding ia' using jl by (rule spliceArr_remove_inserted)
  have hne: "history (save s) \<noteq> []" using save_pushes(1)[OF assms(1)] .
  have st: "stopEditing True (Some v) ?a = cancelNewItem (int j) ?a"
    using assms(1,4) ua ea na fi by (simp add: stopEditing_def saveEdit_def Let_def)
  have r: "items (cancelNewItem (int j) ?a) = items s"
    "history (cancelNewItem (int j) ?a) = butlast (history (save s))"
    "future (cancelNewItem (int j) ?a) = future (save s)"
    "notifications (cancelNewItem (int j) ?a) = notifications s"
    "editingId (cancelNewItem (int j) ?a) = None"
    "\<not> isNewItem (cancelNewItem (int j) ?a)"
    using at rm ha fa oa hne
    by (simp_all add: cancelNewItem_def deleteItem_def deleteSingle_def Let_def popLast_def
          resetEditingState_def)
  show ?thesis
    unfolding st using r popped_history[OF assms(1)] save_pushes(3)[OF assms(1)] by simp
qed

theorem abandoned_item_witness:
  "\<not> isUndoingRedoing oneTask
   \<and> \<not> list_ex (\<lambda>i. itemId i = nextId oneTask) (items oneTask)
   \<and> length (items (addItem Todo None None oneTask)) = Suc (length (items oneTask))
   \<and> trim '' '' = []
   \<and> length (history oneTask) < MAX_HISTORY_SIZE
   \<and> items (stopEditing True (Some '' '') (addItem Todo None None oneTask)) = items oneTask
   \<and> history (stopEditing True (Some '' '') (addItem Todo None None oneTask)) = history oneTask"
proof -
  have h1: "\<not> isUndoingRedoing oneTask" by code_simp
  have h2: "\<not> list_ex (\<lambda>i. itemId i = nextId oneTask) (items oneTask)" by code_simp
  have h3: "length (items (addItem Todo None None oneTask)) = Suc (length (items oneTask))"
    by code_simp
  have h4: "trim '' '' = []" by code_simp
  have h5: "length (history oneTask) < MAX_HISTORY_SIZE" by code_simp
  from abandoned_item[OF h1 h2 h3 h4] h1 h2 h3 h4 h5 show ?thesis by blast
qed

subsection \<open>Children at the start of a section\<close>

text \<open>
  Claim C1 says that in every state reached from the empty outline no task of indent 1
  is the first item of a section. Restore appends an archived child that has no parent
  in the archive with its indent 1, here to an empty list; and an edit that empties
  the title of a parent deletes the parent without its children.
\<close>

theorem restored_child_starts_section:
  "items (run restoreOrphan initialState) = [mkTodo 1 1 ''y'']
   \<and> childStartsSection True (items (run restoreOrphan initialState))
   \<and> items (run emptiedParent initialState) = [mkTodo 1 1 ''y'']
   \<and> childStartsSection True (items (run emptiedParent initialState))"
  by code_simp

subsection \<open>Archived items are checked\<close>

lemma archiveChecked_updates [simp]:
  "archiveChecked (s\<lparr>items := a1\<rparr>) = archiveChecked s"
  "archiveChecked (s\<lparr>selectedIndices := a2\<rparr>) = archiveChecked s"
  "archiveChecked (s\<lparr>activeIndex := a3\<rparr>) = archiveChecked s"
  "archiveChecked (s\<lparr>anchorIndex := a4\<rparr>) = archiveChecked s"
  "archiveChecked (s\<lparr>archivedSelectedIndices := a5\<rparr>) = archiveChecked s"
  "archiveChecked (s\<lparr>archivedActiveIndex := a6\<rparr>) = archiveChecked s"
  "archiveChecked (s\<lparr>archivedAnchorIndex := a7\<rparr>) = archiveChecked s"
  "archiveChecked (s\<lparr>editingId := a8\<rparr>) = archiveChecked s"
  "archiveChecked (s\<lparr>isNewItem := a9\<rparr>) = archiveChecked s"
  "archiveChecked (s\<lparr>isArchiveHidden := b1\<rparr>) = archiveChecked s"
  "archiveChecked (s\<lparr>clipboard := b2\<rparr>) = archiveChecked s"
  "archiveChecked (s\<lparr>isArchiveActive := b3\<rparr>) = archiveChecked s"
  "archiveChecked (s\<lparr>isArchiveHeaderSelected := b4\<rparr>) = archiveChecked s"
  "archiveChecked (s\<lparr>nextId := b5\<rparr>) = archiveChecked s"
  "archiveChecked (s\<lparr>notifications := b6\<rparr>) = archiveChecked s"
  "archiveChecked (s\<lparr>isUndoingRedoing := b7\<rparr>) = archiveChecked s"
  by (simp_all add: archiveChecked_def)

lemma list_all_tl: "list_all P xs \<Longrightarrow> list_all P (tl xs)"
  by (cases xs) simp_all

lemma list_all_butlast: "list_all P xs \<Longrightarrow> list_all P (butlast xs)"
  by (auto simp: list_all_iff dest: in_set_butlastD)

lemma archiveChecked_save [simp]: "archiveChecked s \<Longrightarrow> archiveChecked (save s)"
  by (auto simp: archiveChecked_def save_def Let_def current_def list_all_tl)

lemma archiveChecked_popLast [simp]: "archiveChecked s \<Longrightarrow> archiveChecked (popLast s)"
  by (auto simp: archiveChecked_def popLast_def list_all_butlast)

lemma archiveChecked_validateSelection [simp]:
  "archiveChecked (validateSelection s) = archiveChecked s"
  by (simp add: validateSelection_def Let_def)

lemma archiveChecked_undo: "archiveChecked s \<Longrightarrow> archiveChecked (undo s)"
  by (cases "history s" rule: rev_cases)
     (auto simp: archiveChecked_def undo_def HistoryManager_undo_def Let_def current_def
        showNotification_def validateSelection_def)

lemma archiveChecked_redo: "archiveChecked s \<Longrightarrow> archiveChecked (redo s)"
  by (cases "future s" rule: rev_cases)
     (auto simp: archiveChecked_def redo_def HistoryManager_redo_def Let_def current_def
        showNotification_def validateSelection_def)

lemma archiveChecked_selectItem [simp]: "archiveChecked (selectItem i s) = archiveChecked s"
  by (simp add: selectItem_def clear_def setSingle_def)

lemma archiveChecked_showNotification [simp]:
  "archiveChecked (showNotification m s) = archiveChecked s"
  by (simp add: showNotification_def)

lemma archiveChecked_resetSelectionAfterDelete [simp]:
  "archiveChecked (resetSelectionAfterDelete r d s) = archiveChecked s"
  by (simp add: resetSelectionAfterDelete_def Let_def)

lemma archiveChecked_deleteSingle [simp]:
  "archiveChecked (deleteSingle i n s) = archiveChecked s"
  by (simp add: deleteSingle_def Let_def split: option.splits)

lemma archiveChecked_deleteMultiple [simp]:
  "archiveChecked (deleteMultiple n s) = archiveChecked s"
  by (simp add: deleteMultiple_def Let_def split: option.splits prod.splits)

lemma archiveChecked_changeIndent [simp]:
  "archiveChecked (changeIndent d s) = archiveChecked s"
  by (simp add: changeIndent_def)

lemma archiveChecked_moveMultipleItems [simp]:
  "archiveChecked (moveMultipleItems dir s) = archiveChecked s"
  by (simp add: moveMultipleItems_def moveMultipleUp_def moveMultipleDown_def
        updateSelectionByIds_def Let_def split: option.splits prod.splits)

lemma archiveChecked_moveSingleItem [simp]:
  "archiveChecked (moveSingleItem dir s) = archiveChecked s"
  by (simp add: moveSingleItem_def moveSingleUp_def moveSingleDown_def Let_def
        split: option.splits)

lemma archiveChecked_moveItem: "archiveChecked s \<Longrightarrow> archiveChecked (moveItem dir s)"
  by (simp add: moveItem_def saveState_def Let_def)

lemma archiveChecked_addItem: "archiveChecked s \<Longrightarrow> archiveChecked (addItem ty ins ind s)"
  by (simp add: addItem_def saveState_def Let_def startEditing_def split: option.splits)

lemma archiveChecked_handleEnter: "archiveChecked s \<Longrightarrow> archiveChecked (handleEnter b s)"
  by (simp add: handleEnter_def archiveChecked_addItem startEditing_def split: option.splits)

lemma archiveChecked_handleSpace: "archiveChecked s \<Longrightarrow> archiveChecked (handleSpace s)"
  by (simp add: handleSpace_def saveState_def Let_def)

lemma archiveChecked_handleTab: "archiveChecked s \<Longrightarrow> archiveChecked (handleTab b s)"
  by (simp add: handleTab_def saveState_def)

lemma set_spliceArr_delete: "set (spliceArr xs i n []) \<subseteq> set xs"
  by (auto simp: spliceArr_def Let_def dest: in_set_takeD in_set_dropD)

lemma set_fold_delete:
  "set (fold (\<lambda>index l. spliceArr l index 1 []) is xs) \<subseteq> set xs"
proof (induction "is" arbitrary: xs)
  case Nil
  then show ?case by simp
next
  case (Cons i "is")
  show ?case using Cons.IH[of "spliceArr xs i 1 []"] set_spliceArr_delete[of xs i 1] by auto
qed

lemma allChecked_subset: "allChecked xs \<Longrightarrow> set ys \<subseteq> set xs \<Longrightarrow> allChecked ys"
  by (auto simp: allChecked_def list_all_iff)

lemma archiveChecked_shrink:
  "archiveChecked s \<Longrightarrow> set a \<subseteq> set (archivedItems s) \<Longrightarrow>
   archiveChecked (s\<lparr>archivedItems := a\<rparr>)"
  by (auto simp: archiveChecked_def intro: allChecked_subset)

lemma archiveChecked_archiveReset [simp]:
  "archiveChecked (archiveResetSelectionAfterDelete m s) = archiveChecked s"
  by (simp add: archiveResetSelectionAfterDelete_def Let_def)

lemma archiveChecked_deleteArchivedItems:
  "archiveChecked s \<Longrightarrow> archiveChecked (deleteArchivedItems s)"
  by (auto simp: deleteArchivedItems_def archiveDeleteByIndices_def Let_def
        intro!: archiveChecked_shrink dest: subsetD[OF set_fold_delete] split: option.splits)

lemma archiveChecked_handleDelete: "archiveChecked s \<Longrightarrow> archiveChecked (handleDelete s)"
  by (simp add: handleDelete_def saveState_def deleteItems_def
        archiveChecked_deleteArchivedItems)

lemma archiveChecked_copyItems: "archiveChecked s \<Longrightarrow> archiveChecked (copyItems s)"
  by (simp add: copyItems_def Let_def)

lemma archiveChecked_cutItems: "archiveChecked s \<Longrightarrow> archiveChecked (cutItems s)"
  by (simp add: cutItems_def Let_def deleteItems_def saveState_def)

lemma archiveChecked_selectRange [simp]:
  "archiveChecked (selectRange i n s) = archiveChecked s"
  by (simp add: selectRange_def)

lemma archiveChecked_pasteItems: "archiveChecked s \<Longrightarrow> archiveChecked (pasteItems s)"
  by (simp add: pasteItems_def saveState_def Let_def split: option.splits)

lemma archiveChecked_duplicateItems: "archiveChecked s \<Longrightarrow> archiveChecked (duplicateItems s)"
  by (simp add: duplicateItems_def saveState_def Let_def split: option.splits)


lemma archiveStep_checked:
  "list_all isChecked (snd acc) \<Longrightarrow> list_all isChecked (snd (archiveStep item acc))"
  by (auto simp: archiveStep_def Let_def list_all_iff)

lemma archiveLoop_checked:
  "list_all isChecked (snd acc) \<Longrightarrow> list_all isChecked (snd (archiveLoop xs acc))"
  by (induction xs arbitrary: acc) (simp_all add: archiveStep_checked)

lemma archiveChecked_grow:
  "archiveChecked s \<Longrightarrow> list_all isChecked m \<Longrightarrow>
   archiveChecked (s\<lparr>archivedItems := m @ archivedItems s\<rparr>)"
  by (simp add: archiveChecked_def allChecked_def)

lemma archiveChecked_addActiveIfEmpty [simp]:
  "archiveChecked (addActiveIfEmpty s) = archiveChecked s"
  by (simp add: addActiveIfEmpty_def)

lemma moveToArchive_archived:
  "\<exists>moved. archivedItems (moveToArchive s) = moved @ archivedItems s \<and> list_all isChecked moved"
proof -
  have c: "list_all isChecked x2" if "archiveLoop xs (its, []) = (x1, x2)" for xs its x1 x2
    using archiveLoop_checked[of "(its, [])" xs] that by simp
  show ?thesis
    using c
    by (auto simp: moveToArchive_def saveState_def Let_def showNotification_def
          split: prod.splits)
qed

lemma archiveChecked_moveToArchive: "archiveChecked s \<Longrightarrow> archiveChecked (moveToArchive s)"
proof -
  assume a: "archiveChecked s"
  have sa: "archiveChecked (save (addActiveIfEmpty s))" using a by simp
  have c: "list_all isChecked x2" if "archiveLoop xs (its, []) = (x1, x2)" for xs its x1 x2
    using archiveLoop_checked[of "(its, [])" xs] that by simp
  show ?thesis
    using a sa c
    by (auto simp: moveToArchive_def saveState_def Let_def archiveChecked_def allChecked_def
          showNotification_def split: prod.splits)
qed

lemma removeLoop_subset: "set (fst (removeLoop is arch moved)) \<subseteq> set arch"
proof (induction "is" arbitrary: arch moved)
  case Nil
  then show ?case by simp
next
  case (Cons i "is")
  show ?case
    using Cons.IH[of arch moved] Cons.IH[of "spliceArr arch i 1 []"] set_spliceArr_delete[of arch i 1]
    by (auto split: option.splits)
qed

lemma removeLoop_unchecked:
  "list_all (\<lambda>i. \<not> isChecked i) moved \<Longrightarrow>
   list_all (\<lambda>i. \<not> isChecked i) (snd (removeLoop is arch moved))"
  by (induction "is" arbitrary: arch moved) (auto split: option.splits)

lemma archiveChecked_moveFromArchive: "archiveChecked s \<Longrightarrow> archiveChecked (moveFromArchive s)"
proof -
  assume a: "archiveChecked s"
  have sa: "archiveChecked (save s)" using a by simp
  have g: "list_all isChecked x1"
    if "removeLoop is (archivedItems s) [] = (x1, x2)" for "is" x1 x2
    using a removeLoop_subset[of "is" "archivedItems s" "[]"] that
    by (auto simp: archiveChecked_def allChecked_def list_all_iff)
  show ?thesis
    using a sa g
    by (auto simp: moveFromArchive_def saveState_def Let_def archiveChecked_def allChecked_def
          showNotification_def selectRange_def split: option.splits prod.splits)
qed

lemma moveFromArchive_items:
  "\<exists>restored. items (moveFromArchive s) = items s @ restored
     \<and> list_all (\<lambda>i. \<not> isChecked i) restored"
proof -
  have u: "list_all (\<lambda>i. \<not> isChecked i) x2"
    if "removeLoop is arch [] = (x1, x2)" for "is" arch x1 x2
    using removeLoop_unchecked[of "[]" "is" arch] that by simp
  show ?thesis
    using u
    by (auto simp: moveFromArchive_def saveState_def Let_def selectRange_def
          showNotification_def split: option.splits prod.splits)
qed

lemma archiveChecked_restoreState [simp]:
  "archiveChecked (restoreState its c s) = archiveChecked s"
  by (simp add: restoreState_def Let_def split: option.splits)

lemma archiveChecked_moveToNextHeading:
  "archiveChecked s \<Longrightarrow> archiveChecked (moveToNextHeading s)"
  by (simp add: moveToNextHeading_def saveState_def Let_def split: prod.splits)

lemma archiveChecked_moveToPrevHeading:
  "archiveChecked s \<Longrightarrow> archiveChecked (moveToPrevHeading s)"
  by (simp add: moveToPrevHeading_def saveState_def Let_def split: prod.splits)

lemma archiveChecked_stopEditing:
  "archiveChecked s \<Longrightarrow> archiveChecked (stopEditing b v s)"
  by (simp add: stopEditing_def saveEdit_def cancelEdit_def cancelNewItem_def saveTitle_def
        resetEditingState_def deleteItem_def Let_def split: option.splits)

lemma archiveChecked_setEditedTitle [simp]:
  "archiveChecked (setEditedTitle v s) = archiveChecked s"
  by (simp add: setEditedTitle_def split: option.splits)

lemma archiveChecked_editOnTab: "archiveChecked s \<Longrightarrow> archiveChecked (editOnTab b v s)"
  by (simp add: editOnTab_def Let_def split: option.splits)

lemma archiveChecked_editNote: "archiveChecked s \<Longrightarrow> archiveChecked (editNote v s)"
  by (simp add: editNote_def saveState_def Let_def split: option.splits)

lemma setLastNote_checked [simp]: "list_all isChecked (setLastNote n l) = list_all isChecked l"
  by (cases l rule: rev_cases) (simp_all add: setLastNote_def)

lemma parseLine_checked:
  "list_all isChecked (pArchivedItems p) \<Longrightarrow> list_all isChecked (pArchivedItems (parseLine line p))"
  by (simp add: parseLine_def Let_def split: option.splits target.splits prod.splits)

lemma parseLines_checked:
  "list_all isChecked (pArchivedItems p) \<Longrightarrow> list_all isChecked (pArchivedItems (parseLines ls p))"
  by (induction ls arbitrary: p) (simp_all add: parseLine_checked)

lemma parseMarkdown_checked: "list_all isChecked (snd (parseMarkdown fresh content))"
  using parseLines_checked[of "parserStart fresh" "splitLines content"]
  by (simp add: parseMarkdown_def Let_def parserStart_def)

lemma archiveChecked_updateMessage:
  "archiveChecked s \<Longrightarrow> list_all isChecked arch \<Longrightarrow> archiveChecked (updateMessage its arch s)"
  by (simp add: updateMessage_def validate_def Let_def archiveChecked_def allChecked_def)

lemma archiveChecked_step: "archiveChecked s \<Longrightarrow> archiveChecked (step e s)"
proof (cases e)
  case (Update fresh content)
  assume "archiveChecked s"
  then show ?thesis
    using Update parseMarkdown_checked[of fresh content]
    by (auto simp: archiveChecked_updateMessage split: prod.splits)
next
  case ClearArchiveConfirmed
  assume "archiveChecked s"
  then have "archiveChecked (save s)" by simp
  then show ?thesis
    using ClearArchiveConfirmed
    by (simp add: clearArchiveConfirmed_def saveState_def archiveChecked_def allChecked_def)
qed (simp_all add: handleKeydown_def handleArrowUpDown_def handleArrowRight_def
       handleArrowLeft_def handleZ_def archiveChecked_moveItem archiveChecked_moveToArchive
       archiveChecked_moveToNextHeading archiveChecked_moveFromArchive
       archiveChecked_moveToPrevHeading archiveChecked_handleEnter archiveChecked_handleSpace
       archiveChecked_handleDelete archiveChecked_handleTab archiveChecked_undo
       archiveChecked_redo archiveChecked_copyItems archiveChecked_cutItems
       archiveChecked_pasteItems archiveChecked_duplicateItems archiveChecked_addItem
       editOnEnter_def editOnEscape_def editOnBlur_def archiveChecked_stopEditing
       archiveChecked_editOnTab clickItem_def doubleClickItem_def clickCheckbox_def
       archiveChecked_editNote clickArchiveHeader_def clickArchivedItem_def gesture_def
       startEditing_def split: option.splits)

lemma reachable_archiveChecked: "reachable s \<Longrightarrow> archiveChecked s"
proof (induction rule: reachable.induct)
  case reachable_init
  show ?case by (simp add: archiveChecked_def allChecked_def initialState_def)
next
  case (reachable_step s e)
  then show ?case by (simp add: archiveChecked_step)
qed

lemma reachable_run: "reachable s \<Longrightarrow> reachable (run es s)"
  by (induction es arbitrary: s) (simp_all add: reachable_step)

text \<open>
  Claim C7. In every state reached from the initial one the archived items are all
  checked; the archive list that the parser returns holds checked items only; Archive
  puts checked items in front of the archive; and the items that Restore appends to the
  active list are unchecked.
\<close>

theorem archive_items_checked:
  "(reachable s \<longrightarrow> list_all isChecked (archivedItems s))
   \<and> list_all isChecked (snd (parseMarkdown fresh content))
   \<and> (\<exists>moved. archivedItems (moveToArchive t) = moved @ archivedItems t
         \<and> list_all isChecked moved)
   \<and> (\<exists>restored. items (moveFromArchive t) = items t @ restored
         \<and> list_all (\<lambda>i. \<not> isChecked i) restored)"
  using reachable_archiveChecked[of s] parseMarkdown_checked moveToArchive_archived
    moveFromArchive_items
  by (simp add: archiveChecked_def allChecked_def)

theorem archive_items_checked_witness:
  "reachable archivedTask \<and> archivedItems archivedTask \<noteq> []
   \<and> list_all isChecked (archivedItems archivedTask)"
proof -
  have r: "reachable archivedTask"
    unfolding archivedTask_def by (intro reachable_run reachable_init)
  have n: "archivedItems archivedTask \<noteq> []" by code_simp
  from archive_items_checked[of archivedTask] r n show ?thesis by blast
qed

subsection \<open>The round trip of the reader and the writer\<close>



lemma splitLines_not_Nil [simp]: "splitLines s \<noteq> []"
  by (induction s) (auto split: list.splits)


















lemma setLastNote_snoc [simp]: "setLastNote n (xs @ [x]) = xs @ [x\<lparr>itemNote := n\<rparr>]"
  by (simp add: setLastNote_def)












text \<open>Writing an item, and the item the reader built from it.\<close>

lemma unlines_append [simp]: "unlines (a @ b) = unlines a @ unlines b"
  by (simp add: unlines_def)

lemma unlines_Cons [simp]: "unlines (l # ls) = l @ newline # unlines ls"
  by (simp add: unlines_def)

lemma unlines_Nil [simp]: "unlines [] = []"
  by (simp add: unlines_def)








lemma reparsed_fields [simp]:
  "itemType (reparsed a k i) = itemType i"
  "title (reparsed a k i) = title i"
  "itemType i \<noteq> Heading \<Longrightarrow> indent (reparsed a k i) = indent i"
  "itemType i \<noteq> Heading \<Longrightarrow> isChecked (reparsed a k i) = (a \<or> isChecked i)"
  by (simp_all add: reparsed_def)





lemma length_reparsedAll [simp]: "length (reparsedAll a k l) = length l"
  by (induction l arbitrary: k) simp_all








end
